theory Spec2Isabelle
  imports Main "HOL-Library.AList"
begin

section \<open>JavaScript values\<close>

text \<open>
  The report document and the request body are values parsed from JSON and typed
  \<^verbatim>\<open>any\<close> in the source. A string is a list of bytes (the UTF-8 text of the
  JavaScript string): every character the program tests or replaces is ASCII, and an
  ASCII byte never occurs inside the encoding of another code point. A number is carried
  by the text that \<^verbatim>\<open>String(n)\<close> gives for it, which is all the program observes
  of a number besides its truthiness (\<^verbatim>\<open>0\<close> and \<^verbatim>\<open>-0\<close> both print as
  \<^verbatim>\<open>0\<close>). An object is the association list of its own properties, read with
  \<^const>\<open>map_of\<close>.
\<close>

datatype jsval =
    JUndefined
  | JNull
  | JBool bool
  | JNum string
  | JStr string
  | JArr "jsval list"
  | JObj "(string \<times> jsval) list"

text \<open>Every value thrown in this program is an error object; it is carried by its message.\<close>

datatype thrown = JsError string

fun message :: "thrown \<Rightarrow> string" where
  "message (JsError m) = m"

definition and_then :: "thrown + 'a \<Rightarrow> ('a \<Rightarrow> thrown + 'b) \<Rightarrow> thrown + 'b" where
  "and_then m f = (case m of Inl e \<Rightarrow> Inl e | Inr x \<Rightarrow> f x)"

fun truthy :: "jsval \<Rightarrow> bool" where
  "truthy JUndefined = False"
| "truthy JNull = False"
| "truthy (JBool b) = b"
| "truthy (JNum t) = (t \<noteq> ''0'' \<and> t \<noteq> ''NaN'')"
| "truthy (JStr s) = (s \<noteq> [])"
| "truthy (JArr xs) = True"
| "truthy (JObj kvs) = True"

text \<open>\<^verbatim>\<open>a || b\<close> on values already computed.\<close>

definition js_or :: "jsval \<Rightarrow> jsval \<Rightarrow> jsval" where
  "js_or a b = (if truthy a then a else b)"

definition nullish :: "jsval \<Rightarrow> bool" where
  "nullish v = (v = JUndefined \<or> v = JNull)"

text \<open>
  \<^verbatim>\<open>v.k\<close>: a TypeError on \<^verbatim>\<open>undefined\<close> and \<^verbatim>\<open>null\<close>, the own property
  of an object, and \<^verbatim>\<open>undefined\<close> otherwise (none of the property names this program
  reads is defined on a prototype). \<^verbatim>\<open>v?.k\<close> is \<open>opt_get\<close>.
\<close>

fun get_prop :: "jsval \<Rightarrow> string \<Rightarrow> thrown + jsval" where
  "get_prop JUndefined k = Inl (JsError (''Cannot read properties of undefined (reading '' @ [CHR 0x27] @ k @ [CHR 0x27] @ '')''))"
| "get_prop JNull k = Inl (JsError (''Cannot read properties of null (reading '' @ [CHR 0x27] @ k @ [CHR 0x27] @ '')''))"
| "get_prop (JObj kvs) k = Inr (case map_of kvs k of None \<Rightarrow> JUndefined | Some v \<Rightarrow> v)"
| "get_prop v k = Inr JUndefined"

definition opt_get :: "jsval \<Rightarrow> string \<Rightarrow> thrown + jsval" where
  "opt_get v k = (if nullish v then Inr JUndefined else get_prop v k)"

fun sequence :: "(thrown + 'a) list \<Rightarrow> thrown + 'a list" where
  "sequence [] = Inr []"
| "sequence (x # xs) = and_then x (\<lambda>y. and_then (sequence xs) (\<lambda>ys. Inr (y # ys)))"

fun join :: "string \<Rightarrow> string list \<Rightarrow> string" where
  "join sep [] = []"
| "join sep [x] = x"
| "join sep (x # y # ys) = x @ sep @ join sep (y # ys)"

text \<open>
  \<^verbatim>\<open>String(v)\<close>. An array is joined with commas, \<^verbatim>\<open>null\<close> and
  \<^verbatim>\<open>undefined\<close> elements printing as nothing. An object parsed from JSON prints as
  \<^verbatim>\<open>[object Object]\<close> unless it has an own property \<^verbatim>\<open>toString\<close>, which is
  then not callable and the conversion throws.
\<close>

fun to_string :: "jsval \<Rightarrow> thrown + string" where
  "to_string JUndefined = Inr ''undefined''"
| "to_string JNull = Inr ''null''"
| "to_string (JBool b) = Inr (if b then ''true'' else ''false'')"
| "to_string (JNum t) = Inr t"
| "to_string (JStr s) = Inr s"
| "to_string (JArr xs) =
     and_then (sequence (map (\<lambda>x. if nullish x then Inr [] else to_string x) xs))
       (\<lambda>ts. Inr (join '','' ts))"
| "to_string (JObj kvs) =
     (if map_of kvs ''toString'' \<noteq> None
      then Inl (JsError ''Cannot convert object to primitive value'')
      else Inr ''[object Object]'')"

section \<open>Escaping\<close>

text \<open>
  \<^verbatim>\<open>s.replace(/[...]/g, f)\<close> for a class of single characters: every character of
  the class is replaced by what the callback returns for it.
\<close>

definition replace_class :: "(char \<Rightarrow> bool) \<Rightarrow> (char \<Rightarrow> string) \<Rightarrow> string \<Rightarrow> string" where
  "replace_class p f s = concat (map (\<lambda>c. if p c then f c else [c]) s)"

definition entities :: "(char \<times> string) list" where
  "entities =
     [(CHR ''&'', ''&amp;''), (CHR ''<'', ''&lt;''), (CHR ''>'', ''&gt;''),
      (CHR 0x22, ''&quot;''), (CHR 0x27, ''&#39;'')]"

text \<open>The callback: a lookup in the object literal, \<^verbatim>\<open>undefined\<close> printing as such.\<close>

definition entity :: "char \<Rightarrow> string" where
  "entity m = (case map_of entities m of None \<Rightarrow> ''undefined'' | Some e \<Rightarrow> e)"

definition special :: "char \<Rightarrow> bool" where
  "special c = (c \<in> set [CHR ''&'', CHR ''<'', CHR ''>'', CHR 0x22, CHR 0x27])"

definition escapeHtml :: "jsval \<Rightarrow> thrown + string" where
  "escapeHtml s = and_then (to_string (js_or s (JStr ''''))) (\<lambda>t. Inr (replace_class special entity t))"

definition escapeAttr :: "jsval \<Rightarrow> thrown + string" where
  "escapeAttr s = and_then (escapeHtml s) (\<lambda>t. Inr (replace_class (\<lambda>c. c = CHR 0x22) (\<lambda>_. ''%22'') t))"

section \<open>The HTML renderer\<close>

text \<open>
  The template literal is kept as the list of its parts: the fixed text, one part for
  each source line, and the interpolated values, each labelled with the document field
  it is read from. The HTML is the concatenation of the parts. Substitutions are
  evaluated from left to right and the first one that throws ends the rendering. The
  empty text between two adjacent substitutions is left out. The bullet and the dash of
  the template are the three bytes of their UTF-8 encodings.
\<close>

datatype field = Header string | Section string string

datatype part = Lit string | Val field string

fun part_text :: "part \<Rightarrow> string" where
  "part_text (Lit s) = s"
| "part_text (Val f s) = s"

definition lit :: "string \<Rightarrow> thrown + part list" where
  "lit s = Inr [Lit s]"

definition val :: "field \<Rightarrow> thrown + string \<Rightarrow> thrown + part list" where
  "val f r = and_then r (\<lambda>t. Inr [Val f t])"

fun collect :: "(thrown + part list) list \<Rightarrow> thrown + part list" where
  "collect [] = Inr []"
| "collect (x # xs) = and_then x (\<lambda>ps. and_then (collect xs) (\<lambda>qs. Inr (ps @ qs)))"

definition bullet :: string where
  "bullet = [CHR 0xE2, CHR 0x80, CHR 0xA2]"

definition emdash :: string where
  "emdash = [CHR 0xE2, CHR 0x80, CHR 0x94]"

text \<open>\<^verbatim>\<open>s.a?.b\<close>\<close>

definition opt_chain :: "jsval \<Rightarrow> string \<Rightarrow> string \<Rightarrow> thrown + jsval" where
  "opt_chain s a b = and_then (get_prop s a) (\<lambda>v. opt_get v b)"

text \<open>The template literal of \<^verbatim>\<open>renderHTML\<close>, over its three local constants.\<close>

definition template :: "jsval \<Rightarrow> jsval \<Rightarrow> jsval \<Rightarrow> thrown + part list" where
  \<open>template h s badge =
     collect [
       lit ''\<newline>'',
       lit ''<!doctype html>\<newline>'',
       lit ''<html>\<newline>'',
       lit ''<head>\<newline>'',
       lit ''<meta charset="utf-8"/>\<newline>'',
       lit ''<title>'',
       val (Header ''business_name'') (and_then (get_prop h ''business_name'') (\<lambda>v. escapeHtml (js_or v (JStr ''Business Overview'')))),
       lit ''</title>\<newline>'',
       lit ''<style>\<newline>'',
       lit ''  body { font-family: Inter, system-ui, -apple-system, Segoe UI, Roboto, Arial, sans-serif; color: #111; padding: 16px; }\<newline>'',
       lit ''  .header { display:flex; justify-content:space-between; align-items:flex-start; border-bottom:1px solid #e5e7eb; padding:16px 0; }\<newline>'',
       lit ''  .h-title { font-size:20px; font-weight:700; }\<newline>'',
       lit ''  .h-meta { color:#555; font-size:12px; }\<newline>'',
       lit ''  .section { padding:12px 0; }\<newline>'',
       lit ''  .k { font-weight:600; margin-bottom:4px; }\<newline>'',
       lit ''  .pill { display:inline-block; padding:4px 8px; border-radius:999px; font-size:12px; background:#f3f4f6; }\<newline>'',
       lit ''  .grid-2 { display:grid; grid-template-columns: 1fr 1fr; gap:16px; }\<newline>'',
       lit ''  @media print { [data-no-print="true"]{ display:none !important; } }\<newline>'',
       lit ''</style>\<newline>'',
       lit ''</head>\<newline>'',
       lit ''<body>\<newline>'',
       lit ''  <div class="header">\<newline>'',
       lit ''    <div>\<newline>'',
       lit ''      <div class="h-title">'',
       val (Header ''business_name'') (and_then (get_prop h ''business_name'') (\<lambda>v. escapeHtml (js_or v (JStr ''Business'')))),
       lit ''</div>\<newline>'',
       lit ''      <div class="h-meta">\<newline>'',
       lit ''        '',
       and_then (get_prop h ''location_city'') (\<lambda>c.
         if truthy c then val (Header ''location_city'') (and_then (get_prop h ''location_city'') escapeHtml)
         else lit ''''),
       and_then (and_then (get_prop h ''location_city'') (\<lambda>a.
           if truthy a then get_prop h ''location_country'' else Inr a)) (\<lambda>c.
         if truthy c then lit '', '' else lit ''''),
       and_then (get_prop h ''location_country'') (\<lambda>c.
         if truthy c then val (Header ''location_country'') (and_then (get_prop h ''location_country'') escapeHtml)
         else lit ''''),
       lit ''\<newline>'',
       lit ''        '',
       and_then (get_prop h ''website_url'') (\<lambda>w.
         if truthy w then collect
           [lit ('' '' @ bullet @ '' <a href="''),
            val (Header ''website_url'') (and_then (get_prop h ''website_url'') escapeAttr),
            lit ''">'',
            val (Header ''website_url'') (and_then (get_prop h ''website_url'') escapeHtml),
            lit ''</a>'']
         else lit ''''),
       lit ''\<newline>'',
       lit ''        '',
       and_then (get_prop h ''contact_email'') (\<lambda>m.
         if truthy m then collect
           [lit ('' '' @ bullet @ '' ''),
            val (Header ''contact_email'') (and_then (get_prop h ''contact_email'') escapeHtml)]
         else lit ''''),
       lit ''\<newline>'',
       lit ''      </div>\<newline>'',
       lit ''    </div>\<newline>'',
       lit ''    <div><span class="pill">'',
       val (Section ''overview'' ''growth_transparency_badge'') (escapeHtml badge),
       lit ''</span></div>\<newline>'',
       lit ''  </div>\<newline>'',
       lit ''\<newline>'',
       lit ''  <div class="section">\<newline>'',
       lit ''    <div class="k">Executive Summary</div>\<newline>'',
       lit ''    <div>'',
       val (Section ''overview'' ''ai_summary'') (and_then (opt_chain s ''overview'' ''ai_summary'') (\<lambda>v. escapeHtml (js_or v (JStr '''')))),
       lit ''</div>\<newline>'',
       lit ''  </div>\<newline>'',
       lit ''\<newline>'',
       lit ''  <div class="grid-2">\<newline>'',
       lit ''    <div class="section">\<newline>'',
       lit ''      <div class="k">Goals</div>\<newline>'',
       lit ''      <div>'',
       val (Section ''overview'' ''goals'') (and_then (opt_chain s ''overview'' ''goals'') (\<lambda>v. escapeHtml (js_or v (JStr '''')))),
       lit ''</div>\<newline>'',
       lit ''    </div>\<newline>'',
       lit ''    <div class="section">\<newline>'',
       lit ''      <div class="k">Certifications</div>\<newline>'',
       lit ''      <div>'',
       val (Section ''overview'' ''certifications'') (and_then (opt_chain s ''overview'' ''certifications'') (\<lambda>v. escapeHtml (js_or v (JStr '''')))),
       lit ''</div>\<newline>'',
       lit ''    </div>\<newline>'',
       lit ''  </div>\<newline>'',
       lit ''\<newline>'',
       lit ''  <div class="grid-2">\<newline>'',
       lit ''    <div class="section">\<newline>'',
       lit ''      <div class="k">Operations</div>\<newline>'',
       lit ''      <div>'',
       val (Section ''operations'' ''information'') (and_then (opt_chain s ''operations'' ''information'') (\<lambda>v. escapeHtml (js_or v (JStr '''')))),
       lit ''</div>\<newline>'',
       lit ''    </div>\<newline>'',
       lit ''    <div class="section">\<newline>'',
       lit ''      <div class="k">Standards (UN / National)</div>\<newline>'',
       lit ''      <div>'',
       val (Section ''standards'' ''global_unwto'') (and_then (opt_chain s ''standards'' ''global_unwto'') (\<lambda>v. escapeHtml (js_or v (JStr '''')))),
       lit ''</div>\<newline>'',
       lit ''      <div>'',
       val (Section ''standards'' ''national_ctc'') (and_then (opt_chain s ''standards'' ''national_ctc'') (\<lambda>v. escapeHtml (js_or v (JStr '''')))),
       lit ''</div>\<newline>'',
       lit ''    </div>\<newline>'',
       lit ''  </div>\<newline>'',
       lit ''\<newline>'',
       lit ''  <div class="grid-2">\<newline>'',
       lit ''    <div class="section">\<newline>'',
       lit ''      <div class="k">Local Impact</div>\<newline>'',
       lit ''      <div>'',
       val (Section ''local_impact'' ''information'') (and_then (opt_chain s ''local_impact'' ''information'') (\<lambda>v. escapeHtml (js_or v (JStr '''')))),
       lit ''</div>\<newline>'',
       lit ''    </div>\<newline>'',
       lit ''    <div class="section">\<newline>'',
       lit ''      <div class="k">People & Partnerships</div>\<newline>'',
       lit ''      <div>'',
       val (Section ''people_partnerships'' ''information'') (and_then (opt_chain s ''people_partnerships'' ''information'') (\<lambda>v. escapeHtml (js_or v (JStr '''')))),
       lit ''</div>\<newline>'',
       lit ''    </div>\<newline>'',
       lit ''  </div>\<newline>'',
       lit ''\<newline>'',
       lit ''  <div class="grid-2">\<newline>'',
       lit ''    <div class="section">\<newline>'',
       lit (''      <div class="k">Insight '' @ emdash @ '' Local Suppliers</div>\<newline>''),
       lit ''      <div>'',
       val (Section ''insights'' ''local_suppliers'') (and_then (opt_chain s ''insights'' ''local_suppliers'') (\<lambda>v. escapeHtml (js_or v (JStr '''')))),
       lit ''</div>\<newline>'',
       lit ''    </div>\<newline>'',
       lit ''    <div class="section">\<newline>'',
       lit (''      <div class="k">Insight '' @ emdash @ '' Employee</div>\<newline>''),
       lit ''      <div>'',
       val (Section ''insights'' ''employee'') (and_then (opt_chain s ''insights'' ''employee'') (\<lambda>v. escapeHtml (js_or v (JStr '''')))),
       lit ''</div>\<newline>'',
       lit ''    </div>\<newline>'',
       lit ''  </div>\<newline>'',
       lit ''\<newline>'',
       lit ''  <div class="section">\<newline>'',
       lit (''    <div class="k">Insight '' @ emdash @ '' Economic</div>\<newline>''),
       lit ''    <div>'',
       val (Section ''insights'' ''economic'') (and_then (opt_chain s ''insights'' ''economic'') (\<lambda>v. escapeHtml (js_or v (JStr '''')))),
       lit ''</div>\<newline>'',
       lit ''  </div>\<newline>'',
       lit ''\<newline>'',
       lit ''  <div class="grid-2">\<newline>'',
       lit ''    <div class="section">\<newline>'',
       lit (''      <div class="k">Recommendations '' @ emdash @ '' Goals</div>\<newline>''),
       lit ''      <div>'',
       val (Section ''recommendations'' ''goals'') (and_then (opt_chain s ''recommendations'' ''goals'') (\<lambda>v. escapeHtml (js_or v (JStr '''')))),
       lit ''</div>\<newline>'',
       lit ''    </div>\<newline>'',
       lit ''    <div class="section">\<newline>'',
       lit (''      <div class="k">Recommendations '' @ emdash @ '' Operations</div>\<newline>''),
       lit ''      <div>'',
       val (Section ''recommendations'' ''operations'') (and_then (opt_chain s ''recommendations'' ''operations'') (\<lambda>v. escapeHtml (js_or v (JStr '''')))),
       lit ''</div>\<newline>'',
       lit ''    </div>\<newline>'',
       lit ''  </div>\<newline>'',
       lit ''</body>\<newline>'',
       lit ''</html>''
     ]\<close>

definition renderHTML_parts :: "jsval \<Rightarrow> thrown + part list" where
  "renderHTML_parts content =
     and_then (get_prop content ''header'') (\<lambda>hv. let h = js_or hv (JObj []) in
     and_then (get_prop content ''sections'') (\<lambda>sv. let s = js_or sv (JObj []) in
     and_then (opt_chain s ''overview'' ''growth_transparency_badge'')
       (\<lambda>bv. let badge = js_or bv (JStr ''Initiated'') in
     template h s badge)))"

definition renderHTML :: "jsval \<Rightarrow> thrown + string" where
  "renderHTML content = and_then (renderHTML_parts content) (\<lambda>ps. Inr (concat (map part_text ps)))"

section \<open>The path resolver\<close>

text \<open>
  \<^verbatim>\<open>pathname.match(/\/enrich-reports\/([^/]+)\/([^/]+)\/report\.json$/)\<close>, giving
  the two groups of the leftmost match. At a start position the match is forced: a
  greedy \<^verbatim>\<open>[^/]+\<close> takes the whole run up to the next slash, and a shorter run
  would have to be followed by the slash of the pattern where a character of the run
  stands.
\<close>

fun strip_prefix :: "string \<Rightarrow> string \<Rightarrow> string option" where
  "strip_prefix [] s = Some s"
| "strip_prefix (p # ps) [] = None"
| "strip_prefix (p # ps) (c # cs) = (if p = c then strip_prefix ps cs else None)"

definition not_slash :: "char \<Rightarrow> bool" where
  "not_slash c = (c \<noteq> CHR ''/'')"

definition match_here :: "string \<Rightarrow> (string \<times> string) option" where
  "match_here s =
     (case strip_prefix ''/enrich-reports/'' s of
        None \<Rightarrow> None
      | Some r1 \<Rightarrow>
          if takeWhile not_slash r1 = [] then None
          else (case strip_prefix ''/'' (dropWhile not_slash r1) of
                  None \<Rightarrow> None
                | Some r2 \<Rightarrow>
                    if takeWhile not_slash r2 = [] then None
                    else if dropWhile not_slash r2 = ''/report.json''
                    then Some (takeWhile not_slash r1, takeWhile not_slash r2)
                    else None))"

fun report_path_match :: "string \<Rightarrow> (string \<times> string) option" where
  "report_path_match [] = match_here []"
| "report_path_match (c # cs) =
     (case match_here (c # cs) of Some g \<Rightarrow> Some g | None \<Rightarrow> report_path_match cs)"

text \<open>
  \<open>new_URL\<close> is the platform's URL parser: the pathname of the parsed URL, or the
  TypeError it throws on a malformed one. Its argument is converted to a string first.
  The \<^verbatim>\<open>catch\<close> turns every throw into the pair of nulls.
\<close>

definition parseReportPath ::
  "(string \<Rightarrow> thrown + string) \<Rightarrow> jsval \<Rightarrow> thrown + (string option \<times> string option)" where
  "parseReportPath new_URL jsonUrl =
     (case and_then (to_string jsonUrl) (\<lambda>href.
           and_then (new_URL href) (\<lambda>pathname.
             let m = report_path_match pathname in
             Inr (map_option fst m, map_option snd m)))
      of Inl e \<Rightarrow> Inr (None, None)
       | Inr r \<Rightarrow> Inr r)"

section \<open>The request handler\<close>

text \<open>
  The services the handler calls are parameters: each field of \<open>world\<close> gives the
  outcome of one call, a value or the error it throws. A run of the handler is the list
  of the effects it completed, in order; a call that throws completes no effect. The
  response is the \<open>Responded\<close> event.
\<close>

type_synonym buffer = string

record request =
  http_method :: string
  body :: jsval

record fetch_response =
  ok :: bool
  json :: "thrown + jsval"

record launch_options =
  args :: "string list"
  executablePath_opt :: jsval
  headless :: bool

record pdf_options =
  pdf_format :: string
  printBackground :: bool
  margin_top :: string
  margin_right :: string
  margin_bottom :: string
  margin_left :: string

record upload_options =
  cacheControl :: string
  contentType :: string
  upsert :: bool

record world =
  SUPABASE_BUCKET :: "string option"
  fetch :: "jsval \<Rightarrow> thrown + fetch_response"
  chromium_args :: "string list"
  executablePath :: "thrown + jsval"
  launch :: "launch_options \<Rightarrow> thrown + unit"
  newPage :: "thrown + unit"
  setContent :: "string \<Rightarrow> string \<Rightarrow> thrown + unit"
  pdf :: "pdf_options \<Rightarrow> thrown + buffer"
  close :: "thrown + unit"
  new_URL :: "string \<Rightarrow> thrown + string"
  upload :: "string \<Rightarrow> string \<Rightarrow> buffer \<Rightarrow> upload_options \<Rightarrow> thrown + thrown option"
  getPublicUrl :: "string \<Rightarrow> string \<Rightarrow> thrown + string"

datatype payload = Text string | Json jsval

datatype event =
    SetHeader string string
  | Fetched jsval
  | Launched launch_options
  | PageOpened
  | ContentSet string string
  | PdfPrinted pdf_options
  | Closed
  | Uploaded string string buffer upload_options
  | PublicUrlRead string string
  | Logged thrown
  | Responded nat payload

text \<open>\<^verbatim>\<open>process.env.SUPABASE_BUCKET || "enrich-reports"\<close>\<close>

definition BUCKET :: "world \<Rightarrow> string" where
  "BUCKET w =
     (case SUPABASE_BUCKET w of
        None \<Rightarrow> ''enrich-reports''
      | Some b \<Rightarrow> if b = [] then ''enrich-reports'' else b)"

text \<open>Computations that extend the run and may throw.\<close>

type_synonym 'a io = "event list \<Rightarrow> (thrown + 'a) \<times> event list"

definition io_bind :: "'a io \<Rightarrow> ('a \<Rightarrow> 'b io) \<Rightarrow> 'b io" where
  "io_bind m f = (\<lambda>t. case m t of (Inl e, t') \<Rightarrow> (Inl e, t') | (Inr x, t') \<Rightarrow> f x t')"

definition io_throw :: "thrown \<Rightarrow> 'a io" where
  "io_throw e = (\<lambda>t. (Inl e, t))"

text \<open>A step without effect, and a call of a service: its effect is recorded when it returns.\<close>

definition pure :: "thrown + 'a \<Rightarrow> 'a io" where
  "pure r = (\<lambda>t. (r, t))"

definition call :: "thrown + 'a \<Rightarrow> event \<Rightarrow> 'a io" where
  "call r ev = (\<lambda>t. case r of Inl e \<Rightarrow> (Inl e, t) | Inr x \<Rightarrow> (Inr x, t @ [ev]))"

definition io_catch :: "'a io \<Rightarrow> (thrown \<Rightarrow> 'a io) \<Rightarrow> 'a io" where
  "io_catch m h = (\<lambda>t. case m t of (Inl e, t') \<Rightarrow> h e t' | (Inr x, t') \<Rightarrow> (Inr x, t'))"

definition respond :: "nat \<Rightarrow> payload \<Rightarrow> unit io" where
  "respond code p = call (Inr ()) (Responded code p)"

definition error_body :: "string \<Rightarrow> payload" where
  "error_body code = Json (JObj [(''error'', JStr code)])"

definition withCORS :: "unit io" where
  "withCORS =
     io_bind (call (Inr ()) (SetHeader ''Access-Control-Allow-Origin'' ''*'')) (\<lambda>_.
     io_bind (call (Inr ()) (SetHeader ''Access-Control-Allow-Methods'' ''POST, OPTIONS'')) (\<lambda>_.
     call (Inr ()) (SetHeader ''Access-Control-Allow-Headers'' ''Content-Type'')))"

text \<open>
  \<^verbatim>\<open>!bizId\<close> holds of null and of the empty string; in the template literal of
  the PDF path a null would print as \<^verbatim>\<open>null\<close>.
\<close>

definition falsy_id :: "string option \<Rightarrow> bool" where
  "falsy_id x = (case x of None \<Rightarrow> True | Some i \<Rightarrow> i = [])"

definition id_text :: "string option \<Rightarrow> string" where
  "id_text x = (case x of None \<Rightarrow> ''null'' | Some i \<Rightarrow> i)"

text \<open>Step 4 of the \<^verbatim>\<open>try\<close> block: resolve the path, upload, respond.\<close>

definition store_pdf :: "world \<Rightarrow> jsval \<Rightarrow> buffer \<Rightarrow> unit io" where
  "store_pdf w json_url pdfBuffer =
     io_bind (pure (parseReportPath (new_URL w) json_url)) (\<lambda>(bizId, reportId).
     if falsy_id bizId \<or> falsy_id reportId
     then respond 400 (error_body ''cannot_parse_report_path'')
     else
       let pdfPath = id_text bizId @ ''/'' @ id_text reportId @ ''/report.pdf'';
           opts = \<lparr>cacheControl = ''3600'', contentType = ''application/pdf'', upsert = True\<rparr> in
       io_bind (pure (upload w (BUCKET w) pdfPath pdfBuffer opts)) (\<lambda>upErr.
       case upErr of
         Some e \<Rightarrow> io_throw e
       | None \<Rightarrow>
           io_bind (call (Inr ()) (Uploaded (BUCKET w) pdfPath pdfBuffer opts)) (\<lambda>_.
           io_bind (call (getPublicUrl w (BUCKET w) pdfPath) (PublicUrlRead (BUCKET w) pdfPath))
             (\<lambda>publicUrl.
           respond 200 (Json (JObj [(''ok'', JBool True), (''url'', JStr publicUrl)]))))))"

text \<open>Steps 1 to 3: fetch the report, render it, print it in a headless browser.\<close>

definition export_report :: "world \<Rightarrow> jsval \<Rightarrow> unit io" where
  "export_report w json_url =
     io_bind (call (fetch w json_url) (Fetched json_url)) (\<lambda>r.
     if \<not> ok r then respond 400 (error_body ''invalid_json_url'')
     else
       io_bind (pure (json r)) (\<lambda>content.
       io_bind (pure (renderHTML content)) (\<lambda>html.
       io_bind (pure (executablePath w)) (\<lambda>exePath.
       let lopts = \<lparr>args = chromium_args w,
                    executablePath_opt = js_or exePath JUndefined,
                    headless = True\<rparr> in
       io_bind (call (launch w lopts) (Launched lopts)) (\<lambda>_.
       io_bind (call (newPage w) PageOpened) (\<lambda>_.
       io_bind (call (setContent w html ''networkidle0'') (ContentSet html ''networkidle0'')) (\<lambda>_.
       let popts = \<lparr>pdf_format = ''Letter'', printBackground = True,
                    margin_top = ''18mm'', margin_right = ''12mm'',
                    margin_bottom = ''18mm'', margin_left = ''12mm''\<rparr> in
       io_bind (call (pdf w popts) (PdfPrinted popts)) (\<lambda>pdfBuffer.
       io_bind (call (close w) Closed) (\<lambda>_.
       store_pdf w json_url pdfBuffer)))))))))"

text \<open>
  The \<^verbatim>\<open>try\<close> block. The destructuring default applies when \<^verbatim>\<open>format\<close> is
  \<^verbatim>\<open>undefined\<close>; \<^verbatim>\<open>!==\<close> compares with the string \<^verbatim>\<open>"pdf"\<close>.
\<close>

definition try_block :: "world \<Rightarrow> request \<Rightarrow> unit io" where
  "try_block w req =
     (if http_method req \<noteq> ''POST'' then respond 405 (error_body ''method_not_allowed'')
      else
        io_bind (pure (get_prop (js_or (body req) (JObj [])) ''json_url'')) (\<lambda>json_url.
        io_bind (pure (get_prop (js_or (body req) (JObj [])) ''format'')) (\<lambda>fv.
        let format = (if fv = JUndefined then JStr ''pdf'' else fv) in
        if \<not> truthy json_url then respond 400 (error_body ''missing_json_url'')
        else if format \<noteq> JStr ''pdf'' then respond 400 (error_body ''unsupported_format'')
        else export_report w json_url)))"

definition handler :: "world \<Rightarrow> request \<Rightarrow> event list" where
  "handler w req =
     snd (io_bind withCORS (\<lambda>_.
       if http_method req = ''OPTIONS'' then respond 204 (Text '''')
       else io_catch (try_block w req) (\<lambda>e.
         io_bind (call (Inr ()) (Logged e)) (\<lambda>_.
         respond 500 (error_body (message e))))) [])"

section \<open>The health check\<close>

text \<open>
  \<^verbatim>\<open>JSON.stringify(v)\<close> without indentation; \<^verbatim>\<open>undefined\<close> has no text, prints
  as \<^verbatim>\<open>null\<close> inside an array and is left out of an object.
\<close>

definition hex_digit :: "nat \<Rightarrow> char" where
  "hex_digit n = ''0123456789abcdef'' ! (n mod 16)"

definition quote_char :: "char \<Rightarrow> string" where
  "quote_char c =
     (if c = CHR 0x22 then [CHR 0x5C, CHR 0x22]
      else if c = CHR 0x5C then [CHR 0x5C, CHR 0x5C]
      else if c = CHR 0x08 then [CHR 0x5C, CHR ''b'']
      else if c = CHR 0x09 then [CHR 0x5C, CHR ''t'']
      else if c = CHR 0x0A then [CHR 0x5C, CHR ''n'']
      else if c = CHR 0x0C then [CHR 0x5C, CHR ''f'']
      else if c = CHR 0x0D then [CHR 0x5C, CHR ''r'']
      else if (of_char c :: nat) < 32
      then [CHR 0x5C, CHR ''u'', CHR ''0'', CHR ''0'',
            hex_digit (of_char c div 16), hex_digit (of_char c)]
      else [c])"

definition quote :: "string \<Rightarrow> string" where
  "quote s = [CHR 0x22] @ concat (map quote_char s) @ [CHR 0x22]"

fun JSON_stringify :: "jsval \<Rightarrow> string option" where
  "JSON_stringify JUndefined = None"
| "JSON_stringify JNull = Some ''null''"
| "JSON_stringify (JBool b) = Some (if b then ''true'' else ''false'')"
| "JSON_stringify (JNum t) =
     Some (if t = ''NaN'' \<or> t = ''Infinity'' \<or> t = ''-Infinity'' then ''null'' else t)"
| "JSON_stringify (JStr s) = Some (quote s)"
| "JSON_stringify (JArr xs) =
     Some (''['' @ join '','' (map (\<lambda>x. case JSON_stringify x of None \<Rightarrow> ''null'' | Some t \<Rightarrow> t) xs) @ '']'')"
| "JSON_stringify (JObj kvs) =
     Some (''{'' @ join '','' (concat (map (\<lambda>(k, v). case JSON_stringify v of
                                                     None \<Rightarrow> []
                                                   | Some t \<Rightarrow> [quote k @ '':'' @ t]) kvs)) @ ''}'')"

text \<open>
  \<^verbatim>\<open>hello.ts\<close>: the request is never read. \<^verbatim>\<open>send\<close> of \<^verbatim>\<open>undefined\<close> would
  send an empty body.
\<close>

definition hello_handler :: "request \<Rightarrow> event list" where
  "hello_handler req =
     snd (io_bind (call (Inr ()) (SetHeader ''Content-Type'' ''application/json'')) (\<lambda>_.
          respond 200 (Text (case JSON_stringify (JObj [(''ok'', JBool True), (''runtime'', JStr ''node'')]) of
                               None \<Rightarrow> [] | Some t \<Rightarrow> t))) [])"

section \<open>Vocabulary of the properties\<close>

text \<open>
  The fields the template interpolates, and the value the renderer reads for a field of
  a document: \<^verbatim>\<open>(content.header || {}).k\<close> and
  \<^verbatim>\<open>(content.sections || {}).a?.b\<close>. A field is absent when this value is
  \<^verbatim>\<open>undefined\<close>.
\<close>

definition header_keys :: "string list" where
  "header_keys =
     [''business_name'', ''location_city'', ''location_country'', ''website_url'', ''contact_email'']"

definition section_keys :: "(string \<times> string) list" where
  "section_keys =
     [(''overview'', ''growth_transparency_badge''), (''overview'', ''ai_summary''),
      (''overview'', ''goals''), (''overview'', ''certifications''),
      (''operations'', ''information''),
      (''standards'', ''global_unwto''), (''standards'', ''national_ctc''),
      (''local_impact'', ''information''), (''people_partnerships'', ''information''),
      (''insights'', ''local_suppliers''), (''insights'', ''employee''), (''insights'', ''economic''),
      (''recommendations'', ''goals''), (''recommendations'', ''operations'')]"

definition template_fields :: "field list" where
  "template_fields = map Header header_keys @ map (\<lambda>(a, b). Section a b) section_keys"

fun read_in :: "jsval \<Rightarrow> jsval \<Rightarrow> field \<Rightarrow> thrown + jsval" where
  "read_in h s (Header k) = get_prop h k"
| "read_in h s (Section a b) = opt_chain s a b"

definition field_read :: "jsval \<Rightarrow> field \<Rightarrow> thrown + jsval" where
  "field_read d f =
     and_then (get_prop d ''header'') (\<lambda>hv.
     and_then (get_prop d ''sections'') (\<lambda>sv.
     read_in (js_or hv (JObj [])) (js_or sv (JObj [])) f))"

text \<open>The literal defaults of the template: what stands after \<^verbatim>\<open>||\<close> for a field.\<close>

definition fallbacks :: "field \<Rightarrow> string list" where
  "fallbacks f =
     (if f = Header ''business_name'' then [''Business Overview'', ''Business'']
      else if f = Section ''overview'' ''growth_transparency_badge'' then [''Initiated'']
      else [[]])"

text \<open>A property of every part of a rendering, when there is one.\<close>

definition parts_all :: "(part \<Rightarrow> bool) \<Rightarrow> thrown + part list \<Rightarrow> bool" where
  "parts_all Q r = (case r of Inl e \<Rightarrow> True | Inr ps \<Rightarrow> list_all Q ps)"

text \<open>
  An interpolated part comes from its field when its text is the escaped text of the
  value read for the field, or of a default of the field when that value is falsy.
\<close>

definition from_field :: "jsval \<Rightarrow> jsval \<Rightarrow> part \<Rightarrow> bool" where
  "from_field h s p =
     (case p of
        Lit x \<Rightarrow> True
      | Val f t \<Rightarrow>
          (case read_in h s f of
             Inl e \<Rightarrow> False
           | Inr v \<Rightarrow> list_ex (\<lambda>D. escapeHtml (js_or v (JStr D)) = Inr t) (fallbacks f)))"

text \<open>
  A read converts when it returns and its value, if truthy, has a string form: then the
  interpolation of the field does not throw.
\<close>

definition converts :: "thrown + jsval \<Rightarrow> bool" where
  "converts r = (case r of Inl e \<Rightarrow> False | Inr v \<Rightarrow> truthy v \<longrightarrow> \<not> isl (to_string v))"

text \<open>The texts interpolated for a field, in the order of the template.\<close>

definition substituted :: "jsval \<Rightarrow> field \<Rightarrow> string list" where
  "substituted d f =
     (case renderHTML_parts d of
        Inl e \<Rightarrow> []
      | Inr ps \<Rightarrow> concat (map (\<lambda>p. case p of Lit s \<Rightarrow> [] | Val g t \<Rightarrow> if g = f then [t] else []) ps))"

text \<open>Two reads that the template cannot tell apart: equal, or both falsy.\<close>

definition same_truth :: "thrown + jsval \<Rightarrow> thrown + jsval \<Rightarrow> bool" where
  "same_truth r r' =
     (r = r' \<or> (case (r, r') of (Inr v, Inr v') \<Rightarrow> \<not> truthy v \<and> \<not> truthy v' | _ \<Rightarrow> False))"

text \<open>Substring test.\<close>

fun contains :: "string \<Rightarrow> string \<Rightarrow> bool" where
  "contains n [] = (n = [])"
| "contains n (c # cs) = (strip_prefix n (c # cs) \<noteq> None \<or> contains n cs)"

text \<open>
  The substring test on a text given in pieces: \<open>carry\<close> is the end of the text read
  so far, as long as an occurrence that starts in it may be.
\<close>

fun scan :: "string \<Rightarrow> string \<Rightarrow> string list \<Rightarrow> bool" where
  "scan n carry [] = contains n carry"
| "scan n carry (x # xs) =
     (contains n (carry @ x) \<or>
      scan n (drop (length (carry @ x) - (length n - 1)) (carry @ x)) xs)"

text \<open>
  A text is escaped when it has none of \<^verbatim>\<open>< > " '\<close> and each \<^verbatim>\<open>&\<close> in it
  starts one of the five entities.
\<close>

definition entity_tails :: "string list" where
  "entity_tails = [''amp;'', ''lt;'', ''gt;'', ''quot;'', ''#39;'']"

fun escaped :: "string \<Rightarrow> bool" where
  "escaped [] = True"
| "escaped (c # cs) =
     (c \<noteq> CHR ''<'' \<and> c \<noteq> CHR ''>'' \<and> c \<noteq> CHR 0x22 \<and> c \<noteq> CHR 0x27 \<and>
      (c = CHR ''&'' \<longrightarrow> list_ex (\<lambda>e. strip_prefix e cs \<noteq> None) entity_tails) \<and>
      escaped cs)"

text \<open>
  Setting and removing a field of a document, by its path from the root. The paths of
  the report's data model are \<^verbatim>\<open>header\<close>, \<^verbatim>\<open>sections\<close>, \<^verbatim>\<open>header.k\<close>,
  \<^verbatim>\<open>sections.a\<close> and \<^verbatim>\<open>sections.a.b\<close>.
\<close>

fun with_field :: "string list \<Rightarrow> jsval \<Rightarrow> jsval \<Rightarrow> jsval" where
  "with_field [k] v (JObj kvs) = JObj (AList.update k v kvs)"
| "with_field (k # k' # ks) v (JObj kvs) =
     (case map_of kvs k of
        None \<Rightarrow> JObj kvs
      | Some c \<Rightarrow> JObj (AList.update k (with_field (k' # ks) v c) kvs))"
| "with_field p v d = d"

fun without_field :: "string list \<Rightarrow> jsval \<Rightarrow> jsval" where
  "without_field [k] (JObj kvs) = JObj (AList.delete k kvs)"
| "without_field (k # k' # ks) (JObj kvs) =
     (case map_of kvs k of
        None \<Rightarrow> JObj kvs
      | Some c \<Rightarrow> JObj (AList.update k (without_field (k' # ks) c) kvs))"
| "without_field p d = d"

fun document_field :: "string list \<Rightarrow> bool" where
  "document_field [k] = (k = ''header'' \<or> k = ''sections'')"
| "document_field [k, a] = (k = ''header'' \<or> k = ''sections'')"
| "document_field [k, a, b] = (k = ''sections'')"
| "document_field p = False"

text \<open>
  The path the resolver accepts: anything, then the segments
  \<^verbatim>\<open>/bucket/businessId/reportId/report.json\<close>; a token is not empty and has no slash.
\<close>

definition token :: "string \<Rightarrow> bool" where
  "token s = (s \<noteq> [] \<and> CHR ''/'' \<notin> set s)"

definition report_path :: "string \<Rightarrow> string \<Rightarrow> string \<Rightarrow> string \<Rightarrow> string" where
  "report_path pre bucket biz rep = pre @ ''/'' @ bucket @ ''/'' @ biz @ ''/'' @ rep @ ''/report.json''"

text \<open>
  The run of a request up to the closing of the browser. \<open>printed w req href html buf\<close>
  says that the request is a POST for the report at \<open>href\<close> asking for no format
  other than PDF, and that steps 1 to 3 succeed in the world \<open>w\<close>, rendering \<open>html\<close>
  and printing \<open>buf\<close>.
\<close>

definition cors_events :: "event list" where
  "cors_events =
     [SetHeader ''Access-Control-Allow-Origin'' ''*'',
      SetHeader ''Access-Control-Allow-Methods'' ''POST, OPTIONS'',
      SetHeader ''Access-Control-Allow-Headers'' ''Content-Type'']"

definition launch_options_of :: "world \<Rightarrow> launch_options" where
  "launch_options_of w =
     \<lparr>args = chromium_args w,
      executablePath_opt = (case executablePath w of Inl e \<Rightarrow> JUndefined | Inr exe \<Rightarrow> js_or exe JUndefined),
      headless = True\<rparr>"

definition letter_options :: pdf_options where
  "letter_options =
     \<lparr>pdf_format = ''Letter'', printBackground = True,
      margin_top = ''18mm'', margin_right = ''12mm'',
      margin_bottom = ''18mm'', margin_left = ''12mm''\<rparr>"

definition pdf_upload_options :: upload_options where
  "pdf_upload_options = \<lparr>cacheControl = ''3600'', contentType = ''application/pdf'', upsert = True\<rparr>"

definition printed_events :: "world \<Rightarrow> string \<Rightarrow> string \<Rightarrow> event list" where
  "printed_events w href html =
     [Fetched (JStr href), Launched (launch_options_of w), PageOpened,
      ContentSet html ''networkidle0'', PdfPrinted letter_options, Closed]"

definition printed :: "world \<Rightarrow> request \<Rightarrow> string \<Rightarrow> string \<Rightarrow> buffer \<Rightarrow> bool" where
  "printed w req href html buf =
     (http_method req = ''POST'' \<and>
      get_prop (js_or (body req) (JObj [])) ''json_url'' = Inr (JStr href) \<and> href \<noteq> [] \<and>
      (get_prop (js_or (body req) (JObj [])) ''format'' = Inr JUndefined \<or>
       get_prop (js_or (body req) (JObj [])) ''format'' = Inr (JStr ''pdf'')) \<and>
      (case fetch w (JStr href) of
         Inl e \<Rightarrow> False
       | Inr r \<Rightarrow> ok r \<and> (case json r of Inl e \<Rightarrow> False | Inr content \<Rightarrow> renderHTML content = Inr html)) \<and>
      (case executablePath w of Inl e \<Rightarrow> False | Inr exe \<Rightarrow> True) \<and>
      launch w (launch_options_of w) = Inr () \<and>
      newPage w = Inr () \<and>
      setContent w html ''networkidle0'' = Inr () \<and>
      pdf w letter_options = Inr buf \<and>
      close w = Inr ())"

section \<open>An example world\<close>

text \<open>
  A world in which every service succeeds, for the concrete runs below. Its URL parser
  knows two URLs, one in the bucket \<^verbatim>\<open>enrich-reports\<close> and one in another bucket.
\<close>

definition example_url :: string where
  "example_url = ''https://x.supabase.co/storage/v1/object/public/enrich-reports/biz1/rep1/report.json''"

definition other_bucket_url :: string where
  "other_bucket_url = ''https://x.supabase.co/storage/v1/object/public/reports-eu/biz1/rep1/report.json''"

definition example_new_URL :: "string \<Rightarrow> thrown + string" where
  "example_new_URL href =
     (if href = example_url then Inr ''/storage/v1/object/public/enrich-reports/biz1/rep1/report.json''
      else if href = other_bucket_url then Inr ''/storage/v1/object/public/reports-eu/biz1/rep1/report.json''
      else Inl (JsError ''Invalid URL''))"

definition example_document :: jsval where
  "example_document = JObj [(''header'', JObj [(''business_name'', JStr ''Acme'')]), (''sections'', JObj [])]"

definition example_world :: world where
  "example_world =
     \<lparr>SUPABASE_BUCKET = None,
      fetch = (\<lambda>u. Inr \<lparr>ok = True, json = Inr example_document\<rparr>),
      chromium_args = [''--disable-gpu''],
      executablePath = Inr (JStr ''/tmp/chromium''),
      launch = (\<lambda>opts. Inr ()),
      newPage = Inr (),
      setContent = (\<lambda>html waitUntil. Inr ()),
      pdf = (\<lambda>opts. Inr ''%PDF-1.7''),
      close = Inr (),
      new_URL = example_new_URL,
      upload = (\<lambda>bucket path buf opts. Inr None),
      getPublicUrl = (\<lambda>bucket path. Inr (''https://x.supabase.co/storage/v1/object/public/'' @ bucket @ ''/'' @ path))\<rparr>"

definition example_request :: "string \<Rightarrow> request" where
  "example_request url = \<lparr>http_method = ''POST'', body = JObj [(''json_url'', JStr url)]\<rparr>"

text \<open>The same world with the bucket configured as \<^verbatim>\<open>reports-eu\<close>.\<close>

definition eu_world :: world where
  "eu_world = example_world\<lparr>SUPABASE_BUCKET := Some ''reports-eu''\<rparr>"

section \<open>The pattern of the path resolver\<close>

text \<open>
  The matcher finds a match exactly on the paths that end with
  \<^verbatim>\<open>/enrich-reports/b/r/report.json\<close> for tokens \<open>b\<close> and \<open>r\<close>, and the
  groups are these tokens.
\<close>

lemma strip_prefix_Some: "strip_prefix p s = Some r \<longleftrightarrow> s = p @ r"
  by (induction p s rule: strip_prefix.induct) auto

lemma strip_prefix_None: "strip_prefix p s = None \<longleftrightarrow> (\<forall>r. s \<noteq> p @ r)"
  using strip_prefix_Some [of p s] by (cases "strip_prefix p s") auto

lemma takeWhile_token: "token b \<Longrightarrow> takeWhile not_slash (b @ CHR ''/'' # xs) = b"
proof -
  assume "token b"
  then have "\<And>x. x \<in> set b \<Longrightarrow> not_slash x" by (auto simp: token_def not_slash_def)
  then have "takeWhile not_slash (b @ CHR ''/'' # xs) = b @ takeWhile not_slash (CHR ''/'' # xs)"
    by (rule takeWhile_append2)
  then show ?thesis by (simp add: not_slash_def)
qed

lemma dropWhile_token: "token b \<Longrightarrow> dropWhile not_slash (b @ CHR ''/'' # xs) = CHR ''/'' # xs"
proof -
  assume "token b"
  then have "\<And>x. x \<in> set b \<Longrightarrow> not_slash x" by (auto simp: token_def not_slash_def)
  then have "dropWhile not_slash (b @ CHR ''/'' # xs) = dropWhile not_slash (CHR ''/'' # xs)"
    by (rule dropWhile_append2)
  then show ?thesis by (simp add: not_slash_def)
qed

lemma match_here_Some:
  "match_here s = Some (b, r) \<longleftrightarrow>
     s = ''/enrich-reports/'' @ b @ ''/'' @ r @ ''/report.json'' \<and> token b \<and> token r"
proof
  assume m: "match_here s = Some (b, r)"
  obtain r1 where sp: "strip_prefix ''/enrich-reports/'' s = Some r1"
    using m by (cases "strip_prefix ''/enrich-reports/'' s") (simp_all add: match_here_def)
  have b1: "takeWhile not_slash r1 \<noteq> []"
    using m sp by (cases "takeWhile not_slash r1 = []") (simp_all add: match_here_def)
  obtain r2 where sp2: "strip_prefix ''/'' (dropWhile not_slash r1) = Some r2"
    using m sp b1 by (cases "strip_prefix ''/'' (dropWhile not_slash r1)") (simp_all add: match_here_def)
  have b2: "takeWhile not_slash r2 \<noteq> []"
    using m sp b1 sp2 by (cases "takeWhile not_slash r2 = []") (simp_all add: match_here_def)
  have d2: "dropWhile not_slash r2 = ''/report.json''"
    using m sp b1 sp2 b2 by (cases "dropWhile not_slash r2 = ''/report.json''") (simp_all add: match_here_def)
  have res: "b = takeWhile not_slash r1" "r = takeWhile not_slash r2"
    using m sp b1 sp2 b2 d2 by (simp_all add: match_here_def)
  have r1: "s = ''/enrich-reports/'' @ r1" using sp by (simp only: strip_prefix_Some)
  have dr1: "dropWhile not_slash r1 = ''/'' @ r2" using sp2 by (simp only: strip_prefix_Some)
  have "r1 = b @ ''/'' @ r2" using res dr1 takeWhile_dropWhile_id [of not_slash r1] by simp
  moreover have "r2 = r @ ''/report.json''" using res d2 takeWhile_dropWhile_id [of not_slash r2] by simp
  moreover have "token b" using res b1 by (auto simp: token_def not_slash_def dest: set_takeWhileD)
  moreover have "token r" using res b2 by (auto simp: token_def not_slash_def dest: set_takeWhileD)
  ultimately show "s = ''/enrich-reports/'' @ b @ ''/'' @ r @ ''/report.json'' \<and> token b \<and> token r"
    using r1 by simp
next
  assume a: "s = ''/enrich-reports/'' @ b @ ''/'' @ r @ ''/report.json'' \<and> token b \<and> token r"
  then have sp: "strip_prefix ''/enrich-reports/'' s = Some (b @ CHR ''/'' # r @ ''/report.json'')"
    by (simp only: strip_prefix_Some) simp
  have t1: "takeWhile not_slash (b @ CHR ''/'' # r @ ''/report.json'') = b"
    and d1: "dropWhile not_slash (b @ CHR ''/'' # r @ ''/report.json'') = CHR ''/'' # r @ ''/report.json''"
    using a by (simp_all only: takeWhile_token dropWhile_token)
  have t2: "takeWhile not_slash (r @ ''/report.json'') = r"
    and d2: "dropWhile not_slash (r @ ''/report.json'') = ''/report.json''"
    using a takeWhile_token [of r "''report.json''"] dropWhile_token [of r "''report.json''"] by simp_all
  have sp2: "strip_prefix ''/'' (CHR ''/'' # r @ ''/report.json'') = Some (r @ ''/report.json'')"
    by (simp only: strip_prefix_Some) simp
  show "match_here s = Some (b, r)"
    using a by (simp add: match_here_def sp t1 d1 sp2 t2 d2 token_def)
qed

lemma first_split_unique:
  "c \<notin> set a \<Longrightarrow> c \<notin> set a' \<Longrightarrow> a @ c # b = a' @ c # b' \<Longrightarrow> a = a' \<and> b = b'"
proof (induction a arbitrary: a')
  case Nil
  then show ?case by (cases a') auto
next
  case (Cons x a)
  then show ?case by (cases a') auto
qed

lemma last_slash_unique:
  assumes "xs @ CHR ''/'' # ys = xs' @ CHR ''/'' # ys'" "CHR ''/'' \<notin> set ys" "CHR ''/'' \<notin> set ys'"
  shows "xs = xs' \<and> ys = ys'"
proof -
  have "rev (xs @ CHR ''/'' # ys) = rev (xs' @ CHR ''/'' # ys')" using assms(1) by simp
  then have "rev ys @ CHR ''/'' # rev xs = rev ys' @ CHR ''/'' # rev xs'" by simp
  moreover have "CHR ''/'' \<notin> set (rev ys)" "CHR ''/'' \<notin> set (rev ys')" using assms by simp_all
  ultimately have "rev ys = rev ys' \<and> rev xs = rev xs'"
    by (rule first_split_unique [rotated 2])
  then show ?thesis by simp
qed

lemma match_unique:
  assumes "pre @ ''/enrich-reports/'' @ b @ ''/'' @ r @ ''/report.json''
           = ''/enrich-reports/'' @ b' @ ''/'' @ r' @ ''/report.json''"
    and "token b" "token r" "token b'" "token r'"
  shows "b' = b \<and> r' = r"
proof -
  have "(pre @ ''/enrich-reports/'' @ b) @ CHR ''/'' # r = (''/enrich-reports/'' @ b') @ CHR ''/'' # r'"
    using assms(1) by simp
  then have 1: "pre @ ''/enrich-reports/'' @ b = ''/enrich-reports/'' @ b'" and 2: "r = r'"
    using last_slash_unique [of "pre @ ''/enrich-reports/'' @ b" r "''/enrich-reports/'' @ b'" r'] assms
    by (simp_all add: token_def)
  have "(pre @ ''/enrich-reports'') @ CHR ''/'' # b = ''/enrich-reports'' @ CHR ''/'' # b'"
    using 1 by simp
  then have "b = b'"
    using last_slash_unique [of "pre @ ''/enrich-reports''" b "''/enrich-reports''" b'] assms
    by (simp add: token_def)
  with 2 show ?thesis by simp
qed

lemma report_path_match_Some:
  "report_path_match p = Some (b, r) \<longleftrightarrow>
     (\<exists>pre. p = pre @ ''/enrich-reports/'' @ b @ ''/'' @ r @ ''/report.json'' \<and> token b \<and> token r)"
proof
  show "report_path_match p = Some (b, r) \<Longrightarrow>
     \<exists>pre. p = pre @ ''/enrich-reports/'' @ b @ ''/'' @ r @ ''/report.json'' \<and> token b \<and> token r"
  proof (induction p)
    case Nil
    then show ?case by (simp add: match_here_def)
  next
    case (Cons c cs)
    show ?case
    proof (cases "match_here (c # cs)")
      case None
      with Cons.prems have "report_path_match cs = Some (b, r)" by simp
      from Cons.IH [OF this] obtain pre where
        "cs = pre @ ''/enrich-reports/'' @ b @ ''/'' @ r @ ''/report.json'' \<and> token b \<and> token r" by blast
      then have "c # cs = (c # pre) @ ''/enrich-reports/'' @ b @ ''/'' @ r @ ''/report.json'' \<and> token b \<and> token r"
        by simp
      then show ?thesis by blast
    next
      case (Some g)
      with Cons.prems have "match_here (c # cs) = Some (b, r)" by simp
      then have "c # cs = [] @ ''/enrich-reports/'' @ b @ ''/'' @ r @ ''/report.json'' \<and> token b \<and> token r"
        by (simp only: match_here_Some append_Nil)
      then show ?thesis by blast
    qed
  qed
next
  assume "\<exists>pre. p = pre @ ''/enrich-reports/'' @ b @ ''/'' @ r @ ''/report.json'' \<and> token b \<and> token r"
  then obtain pre where p: "p = pre @ ''/enrich-reports/'' @ b @ ''/'' @ r @ ''/report.json''"
    and t: "token b" "token r" by blast
  show "report_path_match p = Some (b, r)"
    unfolding p
  proof (induction pre)
    case Nil
    have "match_here (''/enrich-reports/'' @ b @ ''/'' @ r @ ''/report.json'') = Some (b, r)"
      using t by (simp only: match_here_Some)
    then show ?case by simp
  next
    case (Cons c pre)
    show ?case
    proof (cases "match_here ((c # pre) @ ''/enrich-reports/'' @ b @ ''/'' @ r @ ''/report.json'')")
      case None
      then show ?thesis using Cons.IH by simp
    next
      case (Some g)
      obtain b' r' where g: "g = (b', r')" by (cases g)
      from Some g have "(c # pre) @ ''/enrich-reports/'' @ b @ ''/'' @ r @ ''/report.json''
           = ''/enrich-reports/'' @ b' @ ''/'' @ r' @ ''/report.json'' \<and> token b' \<and> token r'"
        by (simp only: match_here_Some)
      then have "b' = b \<and> r' = r" using match_unique [of "c # pre" b r b' r'] t by blast
      then show ?thesis using Some g by simp
    qed
  qed
qed

section \<open>The path resolver never throws\<close>

lemma and_then_simps [simp]:
  "and_then (Inl e) f = Inl e" "and_then (Inr x) f = f x"
  by (simp_all add: and_then_def)

lemma report_path_enrich:
  "report_path pre ''enrich-reports'' b r = pre @ ''/enrich-reports/'' @ b @ ''/'' @ r @ ''/report.json''"
  by (simp add: report_path_def)

lemma report_path_match_None:
  "report_path_match p = None \<longleftrightarrow>
     \<not> (\<exists>pre b r. token b \<and> token r \<and> p = report_path pre ''enrich-reports'' b r)"
proof
  assume n: "report_path_match p = None"
  show "\<not> (\<exists>pre b r. token b \<and> token r \<and> p = report_path pre ''enrich-reports'' b r)"
  proof
    assume "\<exists>pre b r. token b \<and> token r \<and> p = report_path pre ''enrich-reports'' b r"
    then obtain pre b r where "token b" "token r" "p = report_path pre ''enrich-reports'' b r" by blast
    then have "report_path_match p = Some (b, r)"
      unfolding report_path_match_Some report_path_enrich by blast
    with n show False by simp
  qed
next
  assume a: "\<not> (\<exists>pre b r. token b \<and> token r \<and> p = report_path pre ''enrich-reports'' b r)"
  show "report_path_match p = None"
  proof (cases "report_path_match p")
    case None
    then show ?thesis .
  next
    case (Some g)
    obtain b r where "g = (b, r)" by (cases g)
    with Some have "\<exists>pre. p = report_path pre ''enrich-reports'' b r \<and> token b \<and> token r"
      unfolding report_path_enrich by (simp only: report_path_match_Some)
    with a show ?thesis by blast
  qed
qed

lemma parseReportPath_Inr:
  "parseReportPath nu j =
     Inr (case and_then (to_string j) nu of
            Inl e \<Rightarrow> (None, None)
          | Inr p \<Rightarrow> (map_option fst (report_path_match p), map_option snd (report_path_match p)))"
  by (cases "to_string j"; cases "and_then (to_string j) nu") (auto simp: parseReportPath_def Let_def)

text \<open>
  Claim C5. \<^verbatim>\<open>parseReportPath\<close> returns on every argument and under every URL parser:
  it never throws. When the argument has no string form, when the URL parser rejects it,
  and when the pathname does not end with \<^verbatim>\<open>/enrich-reports/b/r/report.json\<close> for
  tokens \<open>b\<close> and \<open>r\<close>, the result is the pair of nulls.
\<close>

theorem parseReportPath_never_throws:
  "(\<exists>res. parseReportPath nu j = Inr res) \<and>
   (\<forall>e. to_string j = Inl e \<longrightarrow> parseReportPath nu j = Inr (None, None)) \<and>
   (\<forall>href e. to_string j = Inr href \<and> nu href = Inl e \<longrightarrow> parseReportPath nu j = Inr (None, None)) \<and>
   (\<forall>href p. to_string j = Inr href \<and> nu href = Inr p \<and>
        \<not> (\<exists>pre b r. token b \<and> token r \<and> p = report_path pre ''enrich-reports'' b r)
      \<longrightarrow> parseReportPath nu j = Inr (None, None))"
proof (intro conjI allI impI)
  show "\<exists>res. parseReportPath nu j = Inr res" by (simp add: parseReportPath_Inr)
next
  fix e assume "to_string j = Inl e"
  then show "parseReportPath nu j = Inr (None, None)" by (simp add: parseReportPath_Inr)
next
  fix href e assume "to_string j = Inr href \<and> nu href = Inl e"
  then show "parseReportPath nu j = Inr (None, None)" by (simp add: parseReportPath_Inr)
next
  fix href p
  assume a: "to_string j = Inr href \<and> nu href = Inr p \<and>
        \<not> (\<exists>pre b r. token b \<and> token r \<and> p = report_path pre ''enrich-reports'' b r)"
  then have "report_path_match p = None" using report_path_match_None [of p] by blast
  with a show "parseReportPath nu j = Inr (None, None)" by (simp add: parseReportPath_Inr)
qed

subsection \<open>The example URLs\<close>

lemma example_paths:
  "example_new_URL ''not a url'' = Inl (JsError ''Invalid URL'')"
  "example_new_URL other_bucket_url = Inr (report_path ''/storage/v1/object/public'' ''reports-eu'' ''biz1'' ''rep1'')"
  "example_new_URL example_url = Inr (report_path ''/storage/v1/object/public'' ''enrich-reports'' ''biz1'' ''rep1'')"
  by (simp_all add: example_new_URL_def example_url_def other_bucket_url_def report_path_def)

lemma other_bucket_no_match:
  "report_path_match (report_path ''/storage/v1/object/public'' ''reports-eu'' ''biz1'' ''rep1'') = None"
  by (simp add: report_path_def match_here_def not_slash_def)

theorem parseReportPath_never_throws_witness:
  "parseReportPath example_new_URL (JStr ''not a url'') = Inr (None, None) \<and>
   parseReportPath example_new_URL (JStr other_bucket_url) = Inr (None, None)"
proof -
  have 1: "to_string (JStr ''not a url'') = Inr ''not a url'' \<and>
           example_new_URL ''not a url'' = Inl (JsError ''Invalid URL'')"
    by (simp add: example_paths)
  have 2: "to_string (JStr other_bucket_url) = Inr other_bucket_url \<and>
           example_new_URL other_bucket_url = Inr (report_path ''/storage/v1/object/public'' ''reports-eu'' ''biz1'' ''rep1'') \<and>
           \<not> (\<exists>pre b r. token b \<and> token r \<and>
                report_path ''/storage/v1/object/public'' ''reports-eu'' ''biz1'' ''rep1'' = report_path pre ''enrich-reports'' b r)"
    using other_bucket_no_match by (simp add: example_paths report_path_match_None)
  show ?thesis
    using parseReportPath_never_throws [of example_new_URL "JStr ''not a url''"]
      parseReportPath_never_throws [of example_new_URL "JStr other_bucket_url"] 1 2
    by blast
qed

section \<open>Runs of the request handler\<close>

text \<open>
  When steps 1 to 3 succeed the run reaches step 4 with the browser closed; what step 4
  adds depends on the path resolver and on the storage.
\<close>

lemmas io_defs = io_bind_def io_catch_def io_throw_def pure_def call_def respond_def withCORS_def

lemma handler_printed:
  assumes "printed w req href html buf"
  shows "handler w req =
     snd (io_catch (store_pdf w (JStr href) buf)
            (\<lambda>e. io_bind (call (Inr ()) (Logged e)) (\<lambda>_. respond 500 (error_body (message e))))
            (cors_events @ printed_events w href html))"
proof -
  from assms obtain r content exe where
    f: "fetch w (JStr href) = Inr r" "ok r" "json r = Inr content" "renderHTML content = Inr html"
       "executablePath w = Inr exe"
    by (auto simp: printed_def split: sum.splits)
  have l: "launch w \<lparr>args = chromium_args w, executablePath_opt = js_or exe JUndefined, headless = True\<rparr> = Inr ()"
    using assms f by (simp add: printed_def launch_options_of_def)
  have p: "pdf w \<lparr>pdf_format = ''Letter'', printBackground = True, margin_top = ''18mm'',
             margin_right = ''12mm'', margin_bottom = ''18mm'', margin_left = ''12mm''\<rparr> = Inr buf"
    using assms by (simp add: printed_def letter_options_def)
  have rest: "http_method req = ''POST''"
    "get_prop (js_or (body req) (JObj [])) ''json_url'' = Inr (JStr href)" "href \<noteq> []"
    "newPage w = Inr ()" "setContent w html ''networkidle0'' = Inr ()" "close w = Inr ()"
    using assms by (simp_all add: printed_def)
  have fmt: "get_prop (js_or (body req) (JObj [])) ''format'' = Inr JUndefined \<or>
             get_prop (js_or (body req) (JObj [])) ''format'' = Inr (JStr ''pdf'')"
    using assms by (simp add: printed_def)
  from fmt show ?thesis
  proof
    assume "get_prop (js_or (body req) (JObj [])) ''format'' = Inr JUndefined"
    then show ?thesis
      by (simp add: handler_def try_block_def export_report_def io_defs f l p rest Let_def
            cors_events_def printed_events_def launch_options_of_def letter_options_def)
  next
    assume "get_prop (js_or (body req) (JObj [])) ''format'' = Inr (JStr ''pdf'')"
    then show ?thesis
      by (simp add: handler_def try_block_def export_report_def io_defs f l p rest Let_def
            cors_events_def printed_events_def launch_options_of_def letter_options_def)
  qed
qed

lemma store_pdf_no_path:
  "parseReportPath (new_URL w) j = Inr (None, None) \<Longrightarrow>
   store_pdf w j buf t = (Inr (), t @ [Responded 400 (error_body ''cannot_parse_report_path'')])"
  by (simp add: store_pdf_def io_defs falsy_id_def)

lemma parse_Some_tokens:
  assumes "parseReportPath nu j = Inr (Some b, Some r)"
  shows "token b \<and> token r"
proof -
  from assms obtain p where p: "and_then (to_string j) nu = Inr p"
    by (cases "and_then (to_string j) nu") (simp_all add: parseReportPath_Inr)
  with assms have "map_option fst (report_path_match p) = Some b"
    "map_option snd (report_path_match p) = Some r"
    by (simp_all add: parseReportPath_Inr)
  then have "report_path_match p = Some (b, r)"
    by (cases "report_path_match p") auto
  then show ?thesis by (simp only: report_path_match_Some) blast
qed

lemma store_pdf_ok:
  assumes "parseReportPath (new_URL w) j = Inr (Some b, Some r)"
    and "upload w (BUCKET w) (b @ ''/'' @ r @ ''/report.pdf'') buf pdf_upload_options = Inr None"
    and "getPublicUrl w (BUCKET w) (b @ ''/'' @ r @ ''/report.pdf'') = Inr url"
  shows "store_pdf w j buf t =
     (Inr (), t @ [Uploaded (BUCKET w) (b @ ''/'' @ r @ ''/report.pdf'') buf pdf_upload_options,
                   PublicUrlRead (BUCKET w) (b @ ''/'' @ r @ ''/report.pdf''),
                   Responded 200 (Json (JObj [(''ok'', JBool True), (''url'', JStr url)]))])"
proof -
  have "b \<noteq> []" "r \<noteq> []" using parse_Some_tokens [OF assms(1)] by (simp_all add: token_def)
  then show ?thesis
    using assms by (simp add: store_pdf_def io_defs falsy_id_def id_text_def Let_def pdf_upload_options_def)
qed

subsection \<open>When rendering succeeds\<close>

lemma collect_isl: "\<not> isl (collect xs) \<longleftrightarrow> list_all (\<lambda>x. \<not> isl x) xs"
proof (induction xs)
  case Nil
  show ?case by simp
next
  case (Cons x xs)
  then show ?case by (cases x; cases "collect xs") simp_all
qed

lemma lit_ok [simp]: "\<not> isl (lit s)"
  by (simp add: lit_def)

lemma val_ok [simp]: "isl (val f r) = isl r"
  by (cases r) (simp_all add: val_def)

lemma escapeHtml_ok: "\<not> isl (to_string v) \<Longrightarrow> \<not> isl (escapeHtml v)"
  by (cases "to_string v"; cases "truthy v") (simp_all add: escapeHtml_def js_or_def)

lemma escapeAttr_ok: "\<not> isl (to_string v) \<Longrightarrow> \<not> isl (escapeAttr v)"
  using escapeHtml_ok [of v] by (cases "escapeHtml v") (simp_all add: escapeAttr_def)

lemma example_rendering: "\<exists>html. renderHTML example_document = Inr html"
proof -
  have "\<not> isl (template (JObj [(''business_name'', JStr ''Acme'')]) (JObj []) (JStr ''Initiated''))"
    apply (simp only: template_def collect_isl)
    apply (simp add: opt_chain_def opt_get_def nullish_def js_or_def escapeHtml_ok)
    done
  then have "\<not> isl (renderHTML_parts example_document)"
    by (simp add: renderHTML_parts_def example_document_def js_or_def opt_chain_def opt_get_def nullish_def)
  then show ?thesis by (cases "renderHTML_parts example_document") (simp_all add: renderHTML_def)
qed

section \<open>The resolver accepts the bucket \<^verbatim>\<open>enrich-reports\<close> only\<close>

lemma example_printed:
  "u \<noteq> [] \<Longrightarrow> \<exists>html. printed example_world (example_request u) u html ''%PDF-1.7''"
  using example_rendering
  by (auto simp: printed_def example_world_def example_request_def js_or_def)

text \<open>
  What the resolver does. For every URL whose pathname ends with the segments
  \<^verbatim>\<open>/enrich-reports/b/r/report.json\<close>, where \<open>b\<close> and \<open>r\<close> are tokens, it
  extracts \<open>(b, r)\<close>. For every other URL (malformed, or with another pathname) it
  returns the pair of nulls, and a request for that URL on which steps 1 to 3 succeed is
  answered 400 \<^verbatim>\<open>cannot_parse_report_path\<close> after the browser is closed.
\<close>

lemma parseReportPath_enrich_reports:
  "(token b \<and> token r \<and> new_URL w href = Inr (report_path pre ''enrich-reports'' b r)
      \<longrightarrow> parseReportPath (new_URL w) (JStr href) = Inr (Some b, Some r)) \<and>
   (\<not> (\<exists>pre b r. token b \<and> token r \<and> new_URL w href = Inr (report_path pre ''enrich-reports'' b r))
      \<longrightarrow> parseReportPath (new_URL w) (JStr href) = Inr (None, None) \<and>
          (\<forall>req html buf. printed w req href html buf \<longrightarrow>
             handler w req =
               cors_events @ printed_events w href html @
               [Responded 400 (error_body ''cannot_parse_report_path'')]))"
proof (intro conjI impI)
  assume a: "token b \<and> token r \<and> new_URL w href = Inr (report_path pre ''enrich-reports'' b r)"
  then have "report_path_match (report_path pre ''enrich-reports'' b r) = Some (b, r)"
    unfolding report_path_enrich report_path_match_Some by blast
  with a show "parseReportPath (new_URL w) (JStr href) = Inr (Some b, Some r)"
    by (simp add: parseReportPath_Inr)
next
  assume n: "\<not> (\<exists>pre b r. token b \<and> token r \<and> new_URL w href = Inr (report_path pre ''enrich-reports'' b r))"
  show none: "parseReportPath (new_URL w) (JStr href) = Inr (None, None)"
  proof (cases "new_URL w href")
    case (Inl e)
    then show ?thesis by (simp add: parseReportPath_Inr)
  next
    case (Inr p)
    with n have "report_path_match p = None" using report_path_match_None [of p] by blast
    with Inr show ?thesis by (simp add: parseReportPath_Inr)
  qed
  show "\<forall>req html buf. printed w req href html buf \<longrightarrow>
          handler w req = cors_events @ printed_events w href html @
             [Responded 400 (error_body ''cannot_parse_report_path'')]"
    by (simp add: handler_printed store_pdf_no_path [OF none] io_catch_def)
qed

lemma eu_printed:
  "u \<noteq> [] \<Longrightarrow> \<exists>html. printed eu_world (example_request u) u html ''%PDF-1.7''"
  using example_rendering
  by (auto simp: printed_def eu_world_def example_world_def example_request_def js_or_def
        launch_options_of_def)

text \<open>
  Claim C1 says that the resolver accepts the report path under any bucket name. With the
  bucket configured as \<^verbatim>\<open>reports-eu\<close>, a request for a report of that bucket,
  whose pathname ends with \<^verbatim>\<open>/reports-eu/biz1/rep1/report.json\<close>, is resolved to the
  pair of nulls and answered 400 \<^verbatim>\<open>cannot_parse_report_path\<close>; and the PDF of a
  report of the bucket \<^verbatim>\<open>enrich-reports\<close> is uploaded into \<^verbatim>\<open>reports-eu\<close>, not
  next to its \<^verbatim>\<open>report.json\<close>.
\<close>

theorem configured_bucket_rejected:
  "BUCKET eu_world = ''reports-eu'' \<and>
   token ''biz1'' \<and> token ''rep1'' \<and>
   new_URL eu_world other_bucket_url =
     Inr (report_path ''/storage/v1/object/public'' (BUCKET eu_world) ''biz1'' ''rep1'') \<and>
   parseReportPath (new_URL eu_world) (JStr other_bucket_url) = Inr (None, None) \<and>
   last (handler eu_world (example_request other_bucket_url))
     = Responded 400 (error_body ''cannot_parse_report_path'') \<and>
   Uploaded ''reports-eu'' ''biz1/rep1/report.pdf'' ''%PDF-1.7'' pdf_upload_options
     \<in> set (handler eu_world (example_request example_url))"
proof -
  have b: "BUCKET eu_world = ''reports-eu''"
    by (simp add: BUCKET_def eu_world_def example_world_def)
  have nu: "new_URL eu_world = example_new_URL" by (simp add: eu_world_def example_world_def)
  have n: "parseReportPath (new_URL eu_world) (JStr other_bucket_url) = Inr (None, None)"
    using other_bucket_no_match by (simp add: nu example_paths parseReportPath_Inr)
  obtain html where "printed eu_world (example_request other_bucket_url) other_bucket_url html ''%PDF-1.7''"
    using eu_printed [of other_bucket_url] by (auto simp: other_bucket_url_def)
  then have "handler eu_world (example_request other_bucket_url) =
      cors_events @ printed_events eu_world other_bucket_url html @
      [Responded 400 (error_body ''cannot_parse_report_path'')]"
    by (simp add: handler_printed store_pdf_no_path [OF n] io_catch_def)
  then have l: "last (handler eu_world (example_request other_bucket_url))
      = Responded 400 (error_body ''cannot_parse_report_path'')"
    by simp
  have s: "parseReportPath (new_URL eu_world) (JStr example_url) = Inr (Some ''biz1'', Some ''rep1'')"
    by (simp add: nu parseReportPath_Inr example_paths report_path_def match_here_def not_slash_def)
  have u: "upload eu_world (BUCKET eu_world) (''biz1'' @ ''/'' @ ''rep1'' @ ''/report.pdf'') ''%PDF-1.7''
      pdf_upload_options = Inr None"
    by (simp add: eu_world_def example_world_def)
  have g: "getPublicUrl eu_world (BUCKET eu_world) (''biz1'' @ ''/'' @ ''rep1'' @ ''/report.pdf'')
      = Inr (''https://x.supabase.co/storage/v1/object/public/'' @ ''reports-eu'' @ ''/'' @
             ''biz1'' @ ''/'' @ ''rep1'' @ ''/report.pdf'')"
    by (simp add: b) (simp add: eu_world_def example_world_def)
  obtain html' where "printed eu_world (example_request example_url) example_url html' ''%PDF-1.7''"
    using eu_printed [of example_url] by (auto simp: example_url_def)
  then have "handler eu_world (example_request example_url) =
      snd (io_catch (store_pdf eu_world (JStr example_url) ''%PDF-1.7'')
            (\<lambda>e. io_bind (call (Inr ()) (Logged e)) (\<lambda>_. respond 500 (error_body (message e))))
            (cors_events @ printed_events eu_world example_url html'))"
    by (rule handler_printed)
  then have "Uploaded (BUCKET eu_world) (''biz1'' @ ''/'' @ ''rep1'' @ ''/report.pdf'') ''%PDF-1.7''
      pdf_upload_options \<in> set (handler eu_world (example_request example_url))"
    by (simp add: store_pdf_ok [OF s u g] io_catch_def)
  then have up: "Uploaded ''reports-eu'' ''biz1/rep1/report.pdf'' ''%PDF-1.7'' pdf_upload_options
      \<in> set (handler eu_world (example_request example_url))"
    by (simp add: b)
  show ?thesis
    using b n l up by (simp add: nu example_paths token_def)
qed

section \<open>A successful export\<close>

text \<open>
  Claim C4. When the whole pipeline succeeds (steps 1 to 3, the path resolver giving
  \<open>(b, r)\<close> for \<^verbatim>\<open>json_url\<close>, the upload and the public URL), the handler uploads
  the PDF once, at the path \<^verbatim>\<open>b/r/report.pdf\<close> of the bucket, with content type
  \<^verbatim>\<open>application/pdf\<close> and upsert enabled, and responds 200 with the body
  \<^verbatim>\<open>{ok: true, url: publicUrl}\<close>.
\<close>

theorem export_success:
  assumes "printed w req href html buf"
    and "parseReportPath (new_URL w) (JStr href) = Inr (Some b, Some r)"
    and "upload w (BUCKET w) (b @ ''/'' @ r @ ''/report.pdf'') buf
           \<lparr>cacheControl = ''3600'', contentType = ''application/pdf'', upsert = True\<rparr> = Inr None"
    and "getPublicUrl w (BUCKET w) (b @ ''/'' @ r @ ''/report.pdf'') = Inr url"
  shows "handler w req =
     cors_events @ printed_events w href html @
     [Uploaded (BUCKET w) (b @ ''/'' @ r @ ''/report.pdf'') buf
        \<lparr>cacheControl = ''3600'', contentType = ''application/pdf'', upsert = True\<rparr>,
      PublicUrlRead (BUCKET w) (b @ ''/'' @ r @ ''/report.pdf''),
      Responded 200 (Json (JObj [(''ok'', JBool True), (''url'', JStr url)]))]"
proof -
  have "store_pdf w (JStr href) buf (cors_events @ printed_events w href html) =
     (Inr (), (cors_events @ printed_events w href html) @
        [Uploaded (BUCKET w) (b @ ''/'' @ r @ ''/report.pdf'') buf pdf_upload_options,
         PublicUrlRead (BUCKET w) (b @ ''/'' @ r @ ''/report.pdf''),
         Responded 200 (Json (JObj [(''ok'', JBool True), (''url'', JStr url)]))])"
    using assms(2-4) by (intro store_pdf_ok) (simp_all add: pdf_upload_options_def)
  then show ?thesis
    by (simp add: handler_printed [OF assms(1)] io_catch_def pdf_upload_options_def)
qed

text \<open>The run of the example world: the tenth event is the upload, the last the response.\<close>

theorem export_success_witness:
  "handler example_world (example_request example_url) ! 9 =
     Uploaded ''enrich-reports'' ''biz1/rep1/report.pdf'' ''%PDF-1.7''
       \<lparr>cacheControl = ''3600'', contentType = ''application/pdf'', upsert = True\<rparr> \<and>
   last (handler example_world (example_request example_url)) =
     Responded 200 (Json (JObj [(''ok'', JBool True),
       (''url'', JStr ''https://x.supabase.co/storage/v1/object/public/enrich-reports/biz1/rep1/report.pdf'')]))"
proof -
  obtain html where 1: "printed example_world (example_request example_url) example_url html ''%PDF-1.7''"
    using example_printed [of example_url] by (auto simp: example_url_def)
  have 2: "parseReportPath (new_URL example_world) (JStr example_url) = Inr (Some ''biz1'', Some ''rep1'')"
    by (simp add: parseReportPath_Inr example_world_def example_paths report_path_def match_here_def not_slash_def)
  have 3: "upload example_world (BUCKET example_world) (''biz1'' @ ''/'' @ ''rep1'' @ ''/report.pdf'') ''%PDF-1.7''
           \<lparr>cacheControl = ''3600'', contentType = ''application/pdf'', upsert = True\<rparr> = Inr None"
    by (simp add: example_world_def)
  have 4: "getPublicUrl example_world (BUCKET example_world) (''biz1'' @ ''/'' @ ''rep1'' @ ''/report.pdf'')
      = Inr ''https://x.supabase.co/storage/v1/object/public/enrich-reports/biz1/rep1/report.pdf''"
    by (simp add: example_world_def BUCKET_def)
  show ?thesis
    using export_success [OF 1 2 3 4]
    by (simp add: cors_events_def printed_events_def BUCKET_def example_world_def)
qed

section \<open>The browser after a failure\<close>

text \<open>
  Claim C2 says that the browser is closed on every exit path after the launch. In the
  example world with a \<^verbatim>\<open>page.setContent\<close> that throws, the handler launches the
  browser, opens a page, logs the error and responds 500: the run has no \<open>Closed\<close>.
\<close>

theorem browser_left_open:
  "handler (example_world\<lparr>setContent := \<lambda>html waitUntil. Inl (JsError ''Navigation timeout'')\<rparr>)
       (example_request example_url) =
     cors_events @
     [Fetched (JStr example_url), Launched (launch_options_of example_world), PageOpened,
      Logged (JsError ''Navigation timeout''),
      Responded 500 (error_body ''Navigation timeout'')]"
proof -
  obtain html where "renderHTML example_document = Inr html" using example_rendering by blast
  then show ?thesis
    by (simp add: handler_def try_block_def export_report_def io_defs Let_def example_world_def
          example_request_def example_url_def js_or_def cors_events_def launch_options_of_def)
qed

section \<open>The format check\<close>

lemma store_pdf_responses:
  assumes "Responded 400 (error_body ''unsupported_format'') \<notin> set t"
    and "store_pdf w j buf t = (res, t')"
  shows "Responded 400 (error_body ''unsupported_format'') \<notin> set t'"
  using assms
  by (cases "parseReportPath (new_URL w) j")
     (auto simp: store_pdf_def io_defs Let_def error_body_def split: if_splits sum.splits option.splits prod.splits)

lemma export_report_responses:
  assumes "Responded 400 (error_body ''unsupported_format'') \<notin> set t"
    and "export_report w j t = (res, t')"
  shows "Responded 400 (error_body ''unsupported_format'') \<notin> set t'"
proof -
  have s: "\<And>buf t0 res0 t1. Responded 400 (error_body ''unsupported_format'') \<notin> set t0 \<Longrightarrow>
      store_pdf w j buf t0 = (res0, t1) \<Longrightarrow> Responded 400 (error_body ''unsupported_format'') \<notin> set t1"
    by (rule store_pdf_responses)
  show ?thesis
    using assms
    apply (simp add: export_report_def io_defs Let_def split: if_splits sum.splits prod.splits)
    apply (auto simp: error_body_def dest!: s [rotated])
    done
qed

text \<open>
  Claim C6, as amended. For every POST request whose body is an object with a truthy
  \<^verbatim>\<open>json_url\<close> (a string that is not empty, say): if \<^verbatim>\<open>format\<close> is a string
  other than \<^verbatim>\<open>"pdf"\<close> the handler responds exactly 400
  \<^verbatim>\<open>{"error":"unsupported_format"}\<close>; if \<^verbatim>\<open>format\<close> is absent the request is
  handled as with \<^verbatim>\<open>format: "pdf"\<close> and is never answered
  \<^verbatim>\<open>unsupported_format\<close>.
\<close>

theorem unsupported_format:
  assumes "http_method req = ''POST''" and "body req = JObj kvs"
    and "map_of kvs ''json_url'' = Some j" and "truthy j"
  shows "(\<forall>f. map_of kvs ''format'' = Some (JStr f) \<and> f \<noteq> ''pdf'' \<longrightarrow>
            handler w req = cors_events @ [Responded 400 (error_body ''unsupported_format'')]) \<and>
         (map_of kvs ''format'' = None \<longrightarrow>
            handler w req = handler w (req\<lparr>body := JObj ((''format'', JStr ''pdf'') # kvs)\<rparr>) \<and>
            Responded 400 (error_body ''unsupported_format'') \<notin> set (handler w req))"
proof (intro conjI allI impI)
  fix f assume "map_of kvs ''format'' = Some (JStr f) \<and> f \<noteq> ''pdf''"
  then show "handler w req = cors_events @ [Responded 400 (error_body ''unsupported_format'')]"
    using assms by (simp add: handler_def try_block_def io_defs js_or_def cors_events_def)
next
  assume n: "map_of kvs ''format'' = None"
  have run: "handler w req =
      snd (io_catch (export_report w j)
             (\<lambda>e. io_bind (call (Inr ()) (Logged e)) (\<lambda>_. respond 500 (error_body (message e))))
             cors_events)"
    using assms n by (simp add: handler_def try_block_def io_defs js_or_def cors_events_def)
  show "handler w req = handler w (req\<lparr>body := JObj ((''format'', JStr ''pdf'') # kvs)\<rparr>)"
    using assms n by (simp add: handler_def try_block_def io_defs js_or_def)
  obtain res t' where e: "export_report w j cors_events = (res, t')"
    by (cases "export_report w j cors_events")
  have "Responded 400 (error_body ''unsupported_format'') \<notin> set cors_events"
    by (simp add: cors_events_def)
  then have "Responded 400 (error_body ''unsupported_format'') \<notin> set t'"
    using e by (rule export_report_responses)
  then show "Responded 400 (error_body ''unsupported_format'') \<notin> set (handler w req)"
    unfolding run using e by (cases res) (simp_all add: io_defs error_body_def)
qed

text \<open>A request for \<^verbatim>\<open>docx\<close>, and one without a format, in the example world.\<close>

theorem unsupported_format_witness:
  "handler example_world
     \<lparr>http_method = ''POST'', body = JObj [(''json_url'', JStr example_url), (''format'', JStr ''docx'')]\<rparr>
     = cors_events @ [Responded 400 (error_body ''unsupported_format'')] \<and>
   Responded 400 (error_body ''unsupported_format'') \<notin> set (handler example_world (example_request example_url))"
proof -
  have t: "truthy (JStr example_url)" by (simp add: example_url_def)
  have 1: "handler example_world
     \<lparr>http_method = ''POST'', body = JObj [(''json_url'', JStr example_url), (''format'', JStr ''docx'')]\<rparr>
     = cors_events @ [Responded 400 (error_body ''unsupported_format'')]"
    using unsupported_format [of "\<lparr>http_method = ''POST'', body = JObj [(''json_url'', JStr example_url), (''format'', JStr ''docx'')]\<rparr>"
        "[(''json_url'', JStr example_url), (''format'', JStr ''docx'')]" "JStr example_url" example_world] t
    by simp
  have m: "http_method (example_request example_url) = ''POST''"
    and b: "body (example_request example_url) = JObj [(''json_url'', JStr example_url)]"
    by (simp_all add: example_request_def)
  have l: "map_of [(''json_url'', JStr example_url)] ''json_url'' = Some (JStr example_url)" by simp
  have n: "map_of [(''json_url'', JStr example_url)] ''format'' = None" by simp
  have 2: "Responded 400 (error_body ''unsupported_format'') \<notin> set (handler example_world (example_request example_url))"
    using unsupported_format [OF m b l t, of example_world] n by blast
  from 1 2 show ?thesis by blast
qed

text \<open>
  Claim C6 as stated fails on a body that contains \<^verbatim>\<open>json_url\<close> with the empty
  string as its value: the check of \<^verbatim>\<open>json_url\<close> comes first and the answer is
  \<^verbatim>\<open>missing_json_url\<close>.
\<close>

theorem empty_json_url_counterexample:
  "handler example_world
     \<lparr>http_method = ''POST'', body = JObj [(''json_url'', JStr []), (''format'', JStr ''docx'')]\<rparr>
     = cors_events @ [Responded 400 (error_body ''missing_json_url'')]"
  by (simp add: handler_def try_block_def io_defs js_or_def cors_events_def)

section \<open>Escaped interpolations\<close>

lemma replace_class_Cons:
  "replace_class p f (c # cs) = (if p c then f c else [c]) @ replace_class p f cs"
  by (simp add: replace_class_def)

lemma replace_class_Nil: "replace_class p f [] = []"
  by (simp add: replace_class_def)

lemma escaped_replace: "escaped (replace_class special entity v)"
proof (induction v)
  case Nil
  show ?case by (simp add: replace_class_Nil)
next
  case (Cons c v)
  show ?case
  proof (cases "special c")
    case True
    then have "c = CHR ''&'' \<or> c = CHR ''<'' \<or> c = CHR ''>'' \<or> c = CHR 0x22 \<or> c = CHR 0x27"
      by (simp add: special_def)
    then show ?thesis using Cons.IH
      by (auto simp: replace_class_Cons special_def entity_def entities_def entity_tails_def)
  next
    case False
    then show ?thesis using Cons.IH
      by (simp add: replace_class_Cons special_def)
  qed
qed

lemma escapeHtml_escaped: "escapeHtml x = Inr t \<Longrightarrow> escaped t"
  by (cases "to_string (js_or x (JStr []))") (auto simp: escapeHtml_def escaped_replace)

lemma escaped_no_quote: "escaped t \<Longrightarrow> CHR 0x22 \<notin> set t"
  by (induction t) auto

lemma replace_class_id: "(\<And>c. c \<in> set t \<Longrightarrow> \<not> p c) \<Longrightarrow> replace_class p f t = t"
  by (induction t) (simp_all add: replace_class_Nil replace_class_Cons)

lemma escapeAttr_eq: "escapeAttr x = escapeHtml x"
proof (cases "escapeHtml x")
  case (Inl e)
  then show ?thesis by (simp add: escapeAttr_def)
next
  case (Inr t)
  then have "CHR 0x22 \<notin> set t" by (intro escaped_no_quote escapeHtml_escaped)
  then have "replace_class (\<lambda>c. c = CHR 0x22) (\<lambda>_. ''%22'') t = t"
    by (intro replace_class_id) auto
  with Inr show ?thesis by (simp add: escapeAttr_def)
qed

lemma js_or_idem: "js_or (js_or v D) D = js_or v D"
  by (simp add: js_or_def)

lemma escapeHtml_js_or: "escapeHtml (js_or v (JStr [])) = escapeHtml v"
  by (simp add: escapeHtml_def js_or_idem)

lemma escapeHtml_str: "escapeHtml (JStr v) = Inr (replace_class special entity v)"
  by (cases v) (simp_all add: escapeHtml_def js_or_def)

lemma replace_class_entities:
  "replace_class special entity v =
     concat (map (\<lambda>c. if c = CHR ''&'' then ''&amp;''
                      else if c = CHR ''<'' then ''&lt;''
                      else if c = CHR ''>'' then ''&gt;''
                      else if c = CHR 0x22 then ''&quot;''
                      else if c = CHR 0x27 then ''&#39;''
                      else [c]) v)"
  by (induction v) (simp_all add: replace_class_Nil replace_class_Cons special_def entity_def entities_def)

subsection \<open>Every interpolated part comes from its field\<close>

lemma parts_all_lit [simp]: "parts_all (from_field h s) (lit x)"
  by (simp add: parts_all_def lit_def from_field_def)

lemma parts_all_collect: "list_all (parts_all Q) xs \<Longrightarrow> parts_all Q (collect xs)"
proof (induction xs)
  case Nil
  show ?case by (simp add: parts_all_def)
next
  case (Cons x xs)
  then show ?case by (cases x; cases "collect xs") (simp_all add: parts_all_def)
qed

lemma parts_all_cond:
  "parts_all Q X \<Longrightarrow> parts_all Q Y \<Longrightarrow> parts_all Q (and_then r (\<lambda>c. if truthy c then X else Y))"
  by (cases r) (simp_all add: parts_all_def)

lemma parts_all_header_default:
  "D \<in> set (fallbacks (Header k)) \<Longrightarrow>
   parts_all (from_field h s) (val (Header k) (and_then (get_prop h k) (\<lambda>v. escapeHtml (js_or v (JStr D)))))"
  by (cases "get_prop h k"; cases "escapeHtml (js_or (projr (get_prop h k)) (JStr D))")
     (auto simp: parts_all_def val_def from_field_def list_ex_iff)

lemma parts_all_header_plain:
  "[] \<in> set (fallbacks (Header k)) \<Longrightarrow>
   parts_all (from_field h s) (val (Header k) (and_then (get_prop h k) escapeHtml))"
  using parts_all_header_default [of "[]" k h s] by (simp add: escapeHtml_js_or)

lemma parts_all_header_attr:
  "[] \<in> set (fallbacks (Header k)) \<Longrightarrow>
   parts_all (from_field h s) (val (Header k) (and_then (get_prop h k) escapeAttr))"
  using parts_all_header_plain [of k h s] by (simp add: escapeAttr_eq [abs_def])

lemma parts_all_section_default:
  "D \<in> set (fallbacks (Section a b)) \<Longrightarrow>
   parts_all (from_field h s) (val (Section a b) (and_then (opt_chain s a b) (\<lambda>v. escapeHtml (js_or v (JStr D)))))"
  by (cases "opt_chain s a b"; cases "escapeHtml (js_or (projr (opt_chain s a b)) (JStr D))")
     (auto simp: parts_all_def val_def from_field_def list_ex_iff)

lemma parts_all_badge:
  "opt_chain s ''overview'' ''growth_transparency_badge'' = Inr bv \<Longrightarrow>
   parts_all (from_field h s)
     (val (Section ''overview'' ''growth_transparency_badge'') (escapeHtml (js_or bv (JStr ''Initiated''))))"
  by (cases "escapeHtml (js_or bv (JStr ''Initiated''))")
     (auto simp: parts_all_def val_def from_field_def list_ex_iff fallbacks_def)

lemma template_from_fields:
  assumes "opt_chain s ''overview'' ''growth_transparency_badge'' = Inr bv"
  shows "parts_all (from_field h s) (template h s (js_or bv (JStr ''Initiated'')))"
  unfolding template_def
  apply (rule parts_all_collect)
  apply (simp add: parts_all_cond parts_all_collect parts_all_header_default parts_all_header_plain
      parts_all_header_attr parts_all_section_default parts_all_badge [OF assms] fallbacks_def
      del: collect.simps)
  done

subsection \<open>From the template to the document\<close>

lemma substituted_member:
  "t \<in> set (substituted d f) \<longleftrightarrow> (\<exists>ps. renderHTML_parts d = Inr ps \<and> Val f t \<in> set ps)"
proof (cases "renderHTML_parts d")
  case (Inl e)
  then show ?thesis by (simp add: substituted_def)
next
  case (Inr ps)
  have "t \<in> set (concat (map (\<lambda>p. case p of Lit s \<Rightarrow> [] | Val g t \<Rightarrow> if g = f then [t] else []) ps))
        \<longleftrightarrow> Val f t \<in> set ps"
    by (induction ps) (auto split: part.splits if_splits)
  with Inr show ?thesis by (simp add: substituted_def)
qed

lemma get_prop_nullish: "nullish d \<Longrightarrow> isl (get_prop d k)"
  by (cases d) (simp_all add: nullish_def)

lemma get_prop_total: "\<not> nullish d \<Longrightarrow> \<exists>v. get_prop d k = Inr v"
  by (cases d) (simp_all add: nullish_def)

lemma opt_get_total: "\<exists>v. opt_get x k = Inr v"
  using get_prop_total [of x k] by (simp add: opt_get_def)

lemma opt_chain_total: "\<not> nullish s \<Longrightarrow> \<exists>v. opt_chain s a b = Inr v"
  using get_prop_total [of s a] opt_get_total by (auto simp: opt_chain_def)

lemma js_or_obj_not_nullish: "\<not> nullish (js_or v (JObj kvs))"
  by (cases v) (simp_all add: js_or_def nullish_def)

text \<open>The rendering of a document is the template over its header, sections and badge.\<close>

lemma renderHTML_parts_unfold:
  assumes "get_prop d ''header'' = Inr hv" and "get_prop d ''sections'' = Inr sv"
    and "opt_chain (js_or sv (JObj [])) ''overview'' ''growth_transparency_badge'' = Inr bv"
  shows "renderHTML_parts d =
           template (js_or hv (JObj [])) (js_or sv (JObj [])) (js_or bv (JStr ''Initiated''))"
    and "field_read d f = read_in (js_or hv (JObj [])) (js_or sv (JObj [])) f"
  using assms by (simp_all add: renderHTML_parts_def field_read_def Let_def)

lemma render_cases:
  obtains (thrown) e where "nullish d" "get_prop d ''header'' = Inl e" "renderHTML_parts d = Inl e"
      "\<And>f. field_read d f = Inl e"
  | (rendered) hv sv bv where "\<not> nullish d"
      "get_prop d ''header'' = Inr hv" "get_prop d ''sections'' = Inr sv"
      "opt_chain (js_or sv (JObj [])) ''overview'' ''growth_transparency_badge'' = Inr bv"
proof (cases "nullish d")
  case True
  then have "isl (get_prop d ''header'')" by (rule get_prop_nullish)
  then obtain e where e: "get_prop d ''header'' = Inl e" by (cases "get_prop d ''header''") simp_all
  have "renderHTML_parts d = Inl e"
    using e by (simp add: renderHTML_parts_def)
  moreover have "\<And>f. field_read d f = Inl e"
    using e by (simp add: field_read_def)
  ultimately show ?thesis using True e thrown by blast
next
  case False
  obtain hv where h: "get_prop d ''header'' = Inr hv" using get_prop_total [OF False] by blast
  obtain sv where s: "get_prop d ''sections'' = Inr sv" using get_prop_total [OF False] by blast
  obtain bv where "opt_chain (js_or sv (JObj [])) ''overview'' ''growth_transparency_badge'' = Inr bv"
    using opt_chain_total [OF js_or_obj_not_nullish] by blast
  with False h s show ?thesis by (rule rendered)
qed

lemma render_from_fields:
  assumes "t \<in> set (substituted d f)"
  shows "\<exists>v D. field_read d f = Inr v \<and> D \<in> set (fallbacks f) \<and> escapeHtml (js_or v (JStr D)) = Inr t"
proof -
  from assms obtain ps where ps: "renderHTML_parts d = Inr ps" "Val f t \<in> set ps"
    by (auto simp: substituted_member)
  show ?thesis
  proof (cases d rule: render_cases)
    case thrown
    with ps show ?thesis by simp
  next
    case (rendered hv sv bv)
    note u = renderHTML_parts_unfold [OF rendered(2-4)]
    have "parts_all (from_field (js_or hv (JObj [])) (js_or sv (JObj []))) (renderHTML_parts d)"
      unfolding u(1) using rendered(4) by (rule template_from_fields)
    with ps have "from_field (js_or hv (JObj [])) (js_or sv (JObj [])) (Val f t)"
      by (simp add: parts_all_def list_all_iff)
    then show ?thesis
      unfolding u(2) [of f] by (auto simp: from_field_def list_ex_iff split: sum.splits)
  qed
qed

lemma collect_member:
  "collect xs = Inr ps \<Longrightarrow> x \<in> set xs \<Longrightarrow> x = Inr qs \<Longrightarrow> set qs \<subseteq> set ps"
proof (induction xs arbitrary: ps)
  case Nil
  then show ?case by simp
next
  case (Cons y ys)
  from Cons.prems(1) obtain p1 p2 where y: "y = Inr p1" and c: "collect ys = Inr p2" and ps: "ps = p1 @ p2"
    by (cases y; cases "collect ys") auto
  show ?case
  proof (cases "x = y")
    case True
    with y Cons.prems(3) ps show ?thesis by auto
  next
    case False
    with Cons.prems(2) have "x \<in> set ys" by simp
    from Cons.IH [OF c this Cons.prems(3)] ps show ?thesis by auto
  qed
qed

section \<open>What is interpolated\<close>

lemma badge_rendered:
  assumes "template h s badge = Inr ps" and "escapeHtml badge = Inr t"
  shows "Val (Section ''overview'' ''growth_transparency_badge'') t \<in> set ps"
proof -
  have "set [Val (Section ''overview'' ''growth_transparency_badge'') t] \<subseteq> set ps"
    using assms(1) unfolding template_def
    apply (rule collect_member [where x = "val (Section ''overview'' ''growth_transparency_badge'') (escapeHtml badge)"])
     apply simp
    apply (simp add: val_def assms(2))
    done
  then show ?thesis by simp
qed

lemma fallbacks_plain:
  "D \<in> set (fallbacks f) \<Longrightarrow> escapeHtml (JStr D) = Inr D"
  by (auto simp: fallbacks_def escapeHtml_str replace_class_def special_def split: if_splits)

lemma fallbacks_clean:
  "D \<in> set (fallbacks f) \<Longrightarrow> \<not> contains ''undefined'' D \<and> \<not> contains ''null'' D"
  by (auto simp: fallbacks_def split: if_splits)

lemma quote_document:
  "substituted (JObj [(''header'', JObj [(''website_url'', JStr [CHR 0x22])])]) (Header ''website_url'')
     = [''&quot;'', ''&quot;'']"
  by code_simp

lemma empty_document:
  "substituted (JObj []) (Header ''business_name'') = [''Business Overview'', ''Business'']"
  by code_simp

text \<open>
  The entity escaping. For every document, every text \<open>t\<close> that \<^verbatim>\<open>renderHTML\<close>
  interpolates for a field is escaped: it has none of \<^verbatim>\<open>< > " '\<close> and each
  \<^verbatim>\<open>&\<close> in it starts an entity. When the field holds a string that is not empty,
  \<open>t\<close> is that string with each of the five characters replaced by its entity
  \<^verbatim>\<open>&amp; &lt; &gt; &quot; &#39;\<close>. \<^verbatim>\<open>escapeAttr\<close> replaces double quotes by
  \<^verbatim>\<open>%22\<close> after the entity replacement, which has left none: it equals
  \<^verbatim>\<open>escapeHtml\<close> on every value.
\<close>

theorem interpolations_escaped:
  "(t \<in> set (substituted d f) \<longrightarrow> escaped t) \<and>
   (t \<in> set (substituted d f) \<and> field_read d f = Inr (JStr v) \<and> v \<noteq> [] \<longrightarrow>
      t = concat (map (\<lambda>c. if c = CHR ''&'' then ''&amp;''
                           else if c = CHR ''<'' then ''&lt;''
                           else if c = CHR ''>'' then ''&gt;''
                           else if c = CHR 0x22 then ''&quot;''
                           else if c = CHR 0x27 then ''&#39;''
                           else [c]) v)) \<and>
   escapeAttr x = escapeHtml x"
proof (intro conjI impI)
  assume "t \<in> set (substituted d f)"
  then obtain w D where "escapeHtml (js_or w (JStr D)) = Inr t"
    using render_from_fields by blast
  then show "escaped t" by (rule escapeHtml_escaped)
next
  assume a: "t \<in> set (substituted d f) \<and> field_read d f = Inr (JStr v) \<and> v \<noteq> []"
  then obtain w D where "field_read d f = Inr w" "escapeHtml (js_or w (JStr D)) = Inr t"
    using render_from_fields by blast
  with a have "escapeHtml (JStr v) = Inr t" by (simp add: js_or_def)
  then show "t = concat (map (\<lambda>c. if c = CHR ''&'' then ''&amp;''
                           else if c = CHR ''<'' then ''&lt;''
                           else if c = CHR ''>'' then ''&gt;''
                           else if c = CHR 0x22 then ''&quot;''
                           else if c = CHR 0x27 then ''&#39;''
                           else [c]) v)"
    by (simp add: escapeHtml_str replace_class_entities)
next
  show "escapeAttr x = escapeHtml x" by (rule escapeAttr_eq)
qed

text \<open>A document whose \<^verbatim>\<open>website_url\<close> is one double quote.\<close>

theorem interpolations_escaped_witness:
  "''&quot;'' \<in> set (substituted (JObj [(''header'', JObj [(''website_url'', JStr [CHR 0x22])])]) (Header ''website_url'')) \<and>
   field_read (JObj [(''header'', JObj [(''website_url'', JStr [CHR 0x22])])]) (Header ''website_url'')
     = Inr (JStr [CHR 0x22]) \<and>
   escaped ''&quot;'' \<and>
   escapeAttr (JStr [CHR 0x22]) = escapeHtml (JStr [CHR 0x22])"
proof -
  have 1: "''&quot;'' \<in> set (substituted (JObj [(''header'', JObj [(''website_url'', JStr [CHR 0x22])])]) (Header ''website_url''))"
    by (simp add: quote_document)
  have 2: "field_read (JObj [(''header'', JObj [(''website_url'', JStr [CHR 0x22])])]) (Header ''website_url'')
     = Inr (JStr [CHR 0x22])"
    by (simp add: field_read_def js_or_def)
  show ?thesis
    using interpolations_escaped [of "''&quot;''"
        "JObj [(''header'', JObj [(''website_url'', JStr [CHR 0x22])])]" "Header ''website_url''"
        "[CHR 0x22]" "JStr [CHR 0x22]"] 1 2
    by blast
qed

text \<open>
  Claim C3 says that every interpolated value has the five characters replaced by their
  entities, and that the value interpolated into the \<^verbatim>\<open>href\<close> attribute
  additionally has every double quote replaced by \<^verbatim>\<open>%22\<close>. For a
  \<^verbatim>\<open>website_url\<close> that is one double quote, the two interpolations, the one in
  \<^verbatim>\<open>href\<close> first, are both \<^verbatim>\<open>&quot;\<close>: \<^verbatim>\<open>escapeAttr\<close> gives
  \<^verbatim>\<open>&quot;\<close>, not \<^verbatim>\<open>%22\<close>.
\<close>

theorem href_quote_is_entity:
  "substituted (JObj [(''header'', JObj [(''website_url'', JStr [CHR 0x22])])]) (Header ''website_url'')
     = [''&quot;'', ''&quot;''] \<and>
   escapeAttr (JStr [CHR 0x22]) = Inr ''&quot;'' \<and>
   escapeAttr (JStr [CHR 0x22]) \<noteq> Inr ''%22''"
  by (simp add: quote_document escapeAttr_eq escapeHtml_str replace_class_def special_def entity_def entities_def)

section \<open>The rendering depends on the fields read, up to falsiness\<close>

lemma same_truth_refl [simp]: "same_truth r r"
  by (simp add: same_truth_def)

lemma same_truth_Inl: "same_truth (Inl e) r \<longleftrightarrow> r = Inl e"
  by (cases r) (auto simp: same_truth_def)

lemma same_truth_Inr:
  "same_truth (Inr v) (Inr v') \<longleftrightarrow> v = v' \<or> (\<not> truthy v \<and> \<not> truthy v')"
  by (auto simp: same_truth_def)

lemma same_truth_js_or: "same_truth (Inr x) (Inr y) \<Longrightarrow> js_or x D = js_or y D"
  by (auto simp: same_truth_Inr js_or_def)

lemma same_truth_cases:
  assumes "same_truth r r'"
  obtains (same) "r = r'" | (falsy) v v' where "r = Inr v" "r' = Inr v'" "\<not> truthy v" "\<not> truthy v'"
  using assms by (cases r; cases r') (auto simp: same_truth_def)

lemma st_default:
  "same_truth r r' \<Longrightarrow>
   and_then r (\<lambda>v. escapeHtml (js_or v D)) = and_then r' (\<lambda>v. escapeHtml (js_or v D))"
proof (erule same_truth_cases)
  assume "r = r'"
  then show ?thesis by (rule arg_cong)
next
  fix v v' assume "r = Inr v" "r' = Inr v'" "\<not> truthy v" "\<not> truthy v'"
  then show ?thesis by (simp add: js_or_def)
qed

lemma st_cond:
  "same_truth r r' \<Longrightarrow>
   and_then r (\<lambda>c. if truthy c then F r else G) = and_then r' (\<lambda>c. if truthy c then F r' else G)"
proof (erule same_truth_cases)
  assume "r = r'"
  then show ?thesis by (rule arg_cong)
next
  fix v v' assume "r = Inr v" "r' = Inr v'" "\<not> truthy v" "\<not> truthy v'"
  then show ?thesis by simp
qed

lemma st_and:
  "same_truth r1 r1' \<Longrightarrow> same_truth r2 r2' \<Longrightarrow>
   same_truth (and_then r1 (\<lambda>a. if truthy a then r2 else Inr a))
              (and_then r1' (\<lambda>a. if truthy a then r2' else Inr a))"
  by (erule same_truth_cases; cases r1') (auto simp: same_truth_Inr)

lemma template_agree:
  assumes "\<forall>f\<in>set template_fields. same_truth (read_in h s f) (read_in h' s' f)"
  shows "template h s badge = template h' s' badge"
proof -
  have hk: "same_truth (get_prop h k) (get_prop h' k)" if "k \<in> set header_keys" for k
    using assms that by (force simp: template_fields_def)
  have sk: "same_truth (opt_chain s a b) (opt_chain s' a b)" if "(a, b) \<in> set section_keys" for a b
    using assms that by (force simp: template_fields_def)
  have bn: "same_truth (get_prop h ''business_name'') (get_prop h' ''business_name'')"
    and lc: "same_truth (get_prop h ''location_city'') (get_prop h' ''location_city'')"
    and lo: "same_truth (get_prop h ''location_country'') (get_prop h' ''location_country'')"
    and wu: "same_truth (get_prop h ''website_url'') (get_prop h' ''website_url'')"
    and ce: "same_truth (get_prop h ''contact_email'') (get_prop h' ''contact_email'')"
    by (rule hk, simp add: header_keys_def)+
  note d = st_default [OF bn]
  note c1 = st_cond [OF lc, where F = "\<lambda>r. val (Header ''location_city'') (and_then r escapeHtml)"]
  note c2 = st_cond [OF lo, where F = "\<lambda>r. val (Header ''location_country'') (and_then r escapeHtml)"]
  note c3 = st_cond [OF st_and [OF lc lo], where F = "\<lambda>r. lit '', ''"]
  note c4 = st_cond [OF wu, where F = "\<lambda>r. collect
           [lit ('' '' @ bullet @ '' <a href=\"''),
            val (Header ''website_url'') (and_then r escapeAttr),
            lit ''\">'',
            val (Header ''website_url'') (and_then r escapeHtml),
            lit ''</a>'']"]
  note c5 = st_cond [OF ce, where F = "\<lambda>r. collect
           [lit ('' '' @ bullet @ '' ''),
            val (Header ''contact_email'') (and_then r escapeHtml)]"]
  have se: "and_then (opt_chain s a b) (\<lambda>v. escapeHtml (js_or v D))
          = and_then (opt_chain s' a b) (\<lambda>v. escapeHtml (js_or v D))"
    if "(a, b) \<in> set section_keys" for a b D
    using sk [OF that] by (rule st_default)
  note s1 = se [of "''overview''" "''ai_summary''"] se [of "''overview''" "''goals''"]
    se [of "''overview''" "''certifications''"] se [of "''operations''" "''information''"]
    se [of "''standards''" "''global_unwto''"] se [of "''standards''" "''national_ctc''"]
    se [of "''local_impact''" "''information''"] se [of "''people_partnerships''" "''information''"]
    se [of "''insights''" "''local_suppliers''"] se [of "''insights''" "''employee''"]
    se [of "''insights''" "''economic''"] se [of "''recommendations''" "''goals''"]
    se [of "''recommendations''" "''operations''"]
  have s2: "and_then (opt_chain s a b) (\<lambda>v. escapeHtml (js_or v (JStr [])))
          = and_then (opt_chain s' a b) (\<lambda>v. escapeHtml (js_or v (JStr [])))"
    if "(a, b) \<in> set (tl section_keys)" for a b
    using that by (intro se) (simp add: section_keys_def)
  show ?thesis
    unfolding template_def
    apply (simp only: d c1 c2 c3 c4 c5)
    apply (simp add: s2 section_keys_def del: collect.simps)
    done
qed

lemma read_in_total:
  "\<not> nullish h \<Longrightarrow> \<not> nullish s \<Longrightarrow> \<exists>v. read_in h s f = Inr v"
  using get_prop_total opt_chain_total by (cases f) simp_all

lemma business_name_field: "Header ''business_name'' \<in> set template_fields"
  by (simp add: template_fields_def header_keys_def)

lemma badge_field: "Section ''overview'' ''growth_transparency_badge'' \<in> set template_fields"
  by (simp add: template_fields_def section_keys_def)

lemma render_agree:
  assumes "\<forall>f\<in>set template_fields. same_truth (field_read d f) (field_read d' f)"
  shows "renderHTML_parts d = renderHTML_parts d'"
proof (cases d rule: render_cases)
  case (thrown e)
  from assms business_name_field
  have "same_truth (field_read d (Header ''business_name'')) (field_read d' (Header ''business_name''))"
    by blast
  then have e': "field_read d' (Header ''business_name'') = Inl e"
    by (simp add: thrown(4) same_truth_Inl)
  show ?thesis
  proof (cases d' rule: render_cases)
    case (thrown e2)
    with e' have "e2 = e" by simp
    with thrown \<open>renderHTML_parts d = Inl e\<close> show ?thesis by simp
  next
    case (rendered hv sv bv)
    have "\<exists>v. field_read d' (Header ''business_name'') = Inr v"
      unfolding renderHTML_parts_unfold(2) [OF rendered(2-4)]
      by (intro read_in_total js_or_obj_not_nullish)
    with e' show ?thesis by simp
  qed
next
  case (rendered hv sv bv)
  note u = renderHTML_parts_unfold [OF rendered(2-4)]
  show ?thesis
  proof (cases d' rule: render_cases)
    case (thrown e)
    from assms business_name_field
    have "same_truth (field_read d (Header ''business_name'')) (field_read d' (Header ''business_name''))"
      by blast
    moreover have "\<exists>v. field_read d (Header ''business_name'') = Inr v"
      unfolding u(2) by (intro read_in_total js_or_obj_not_nullish)
    ultimately show ?thesis by (auto simp: thrown(4) same_truth_def)
  next
    case r': (rendered hv' sv' bv')
    note u' = renderHTML_parts_unfold [OF r'(2-4)]
    have a: "\<forall>f\<in>set template_fields.
        same_truth (read_in (js_or hv (JObj [])) (js_or sv (JObj [])) f)
                   (read_in (js_or hv' (JObj [])) (js_or sv' (JObj [])) f)"
      using assms unfolding u(2) u'(2) .
    with badge_field have "same_truth (Inr bv) (Inr bv')"
      using rendered(4) r'(4) by fastforce
    then have "js_or bv (JStr ''Initiated'') = js_or bv' (JStr ''Initiated'')"
      by (rule same_truth_js_or)
    with template_agree [OF a] show ?thesis unfolding u(1) u'(1) by simp
  qed
qed

subsection \<open>A falsy field and an absent field are read alike\<close>

lemma falsy_opt_get: "\<not> truthy v \<Longrightarrow> opt_get v b = Inr JUndefined"
  by (cases v) (simp_all add: opt_get_def nullish_def)

lemma lookup_update_delete:
  "\<not> truthy v \<Longrightarrow>
   same_truth (get_prop (JObj (AList.update a v cs)) k) (get_prop (JObj (AList.delete a cs)) k)"
  by (simp add: same_truth_Inr update_conv' delete_conv')

lemma with_field_get:
  "\<not> truthy v \<Longrightarrow> same_truth (get_prop (with_field [a] v c) k) (get_prop (without_field [a] c) k)"
  by (cases c) (simp_all add: same_truth_Inr update_conv' delete_conv')

lemma with_field_chain1:
  "\<not> truthy v \<Longrightarrow> opt_chain (with_field [a] v c) a' b = opt_chain (without_field [a] c) a' b"
  by (cases c) (simp_all add: opt_chain_def update_conv' delete_conv' falsy_opt_get)

lemma with_field_chain2:
  "\<not> truthy v \<Longrightarrow>
   same_truth (opt_chain (with_field [a, b] v c) a' b') (opt_chain (without_field [a, b] c) a' b')"
proof (cases c)
  case (JObj cs)
  assume v: "\<not> truthy v"
  show ?thesis
  proof (cases "map_of cs a")
    case None
    with JObj show ?thesis by simp
  next
    case (Some e)
    show ?thesis
    proof (cases "a' = a")
      case True
      have "same_truth (opt_get (with_field [b] v e) b') (opt_get (without_field [b] e) b')"
        using with_field_get [OF v, of b e b'] by (cases e) (simp_all add: opt_get_def nullish_def)
      with JObj Some True show ?thesis by (simp add: opt_chain_def update_conv')
    next
      case False
      with JObj Some show ?thesis by (simp add: opt_chain_def update_conv')
    qed
  qed
qed simp_all

subsection \<open>Setting a field to a falsy value, and removing it\<close>

lemma field_read_obj:
  "field_read (JObj xs) f =
     read_in (js_or (case map_of xs ''header'' of None \<Rightarrow> JUndefined | Some v \<Rightarrow> v) (JObj []))
             (js_or (case map_of xs ''sections'' of None \<Rightarrow> JUndefined | Some v \<Rightarrow> v) (JObj [])) f"
  by (simp add: field_read_def)

lemma header_key_reads:
  "\<not> truthy v \<Longrightarrow>
   same_truth (read_in (js_or (with_field [a] v c) (JObj [])) s f)
              (read_in (js_or (without_field [a] c) (JObj [])) s f)"
  by (cases c; cases f) (simp_all add: js_or_def same_truth_Inr update_conv' delete_conv')

lemma section_reads:
  "\<not> truthy v \<Longrightarrow>
   same_truth (read_in h (js_or (with_field [a] v c) (JObj [])) f)
              (read_in h (js_or (without_field [a] c) (JObj [])) f)"
proof (cases f)
  case (Header k)
  then show ?thesis by simp
next
  case (Section a' b')
  assume v: "\<not> truthy v"
  show ?thesis
  proof (cases c)
    case (JObj cs)
    with Section with_field_chain1 [OF v, of a c a' b'] show ?thesis by (simp add: js_or_def)
  qed (simp_all add: Section)
qed

lemma section_key_reads:
  "\<not> truthy v \<Longrightarrow>
   same_truth (read_in h (js_or (with_field [a, b] v c) (JObj [])) f)
              (read_in h (js_or (without_field [a, b] c) (JObj [])) f)"
proof (cases f)
  case (Header k)
  then show ?thesis by simp
next
  case (Section a' b')
  assume v: "\<not> truthy v"
  show ?thesis
  proof (cases c)
    case (JObj cs)
    have "truthy (with_field [a, b] v (JObj cs))" "truthy (without_field [a, b] (JObj cs))"
      by (simp_all split: option.splits)
    with JObj Section with_field_chain2 [OF v, of a b c a' b'] show ?thesis by (simp add: js_or_def)
  qed (simp_all add: Section)
qed

lemma document_field_shapes:
  assumes "document_field p"
  obtains (top) k where "p = [k]"
  | (inner) k a where "p = [k, a]" "k = ''header'' \<or> k = ''sections''"
  | (leaf) a b where "p = [''sections'', a, b]"
  using assms by (cases p rule: document_field.cases) auto

lemma falsy_reads:
  assumes "document_field p" and "\<not> truthy v"
  shows "same_truth (field_read (with_field p v d) f) (field_read (without_field p d) f)"
proof (cases d)
  case (JObj kvs)
  from assms(1) show ?thesis
  proof (cases p rule: document_field_shapes)
    case (top k)
    with assms JObj show ?thesis
      by (auto simp: field_read_obj update_conv' delete_conv' js_or_def)
  next
    case (inner k a)
    show ?thesis
    proof (cases "map_of kvs k")
      case None
      with inner JObj show ?thesis by simp
    next
      case (Some c)
      from inner(2) show ?thesis
      proof
        assume "k = ''header''"
        with inner JObj Some header_key_reads [OF assms(2), of a c] show ?thesis
          by (simp add: field_read_obj update_conv')
      next
        assume "k = ''sections''"
        with inner JObj Some section_reads [OF assms(2), of _ a c] show ?thesis
          by (simp add: field_read_obj update_conv')
      qed
    qed
  next
    case (leaf a b)
    show ?thesis
    proof (cases "map_of kvs ''sections''")
      case None
      with leaf JObj show ?thesis by simp
    next
      case (Some c)
      with leaf JObj section_key_reads [OF assms(2), of _ a b c] show ?thesis
        by (simp add: field_read_obj update_conv')
    qed
  qed
next
  case JUndefined
  with assms(1) show ?thesis by (cases p rule: document_field_shapes) simp_all
next
  case JNull
  with assms(1) show ?thesis by (cases p rule: document_field_shapes) simp_all
next
  case (JBool x)
  with assms(1) show ?thesis by (cases p rule: document_field_shapes) simp_all
next
  case (JNum x)
  with assms(1) show ?thesis by (cases p rule: document_field_shapes) simp_all
next
  case (JStr x)
  with assms(1) show ?thesis by (cases p rule: document_field_shapes) simp_all
next
  case (JArr x)
  with assms(1) show ?thesis by (cases p rule: document_field_shapes) simp_all
qed

section \<open>Absent fields\<close>

lemma contains_iff: "contains n s \<longleftrightarrow> (\<exists>a b. s = a @ n @ b)"
proof (induction s)
  case Nil
  show ?case by auto
next
  case (Cons c cs)
  have "strip_prefix n (c # cs) \<noteq> None \<longleftrightarrow> (\<exists>b. c # cs = n @ b)"
    using strip_prefix_Some [of n "c # cs"] by (cases "strip_prefix n (c # cs)") auto
  moreover have "(\<exists>a b. c # cs = a @ n @ b) \<longleftrightarrow> (\<exists>b. c # cs = n @ b) \<or> (\<exists>a b. cs = a @ n @ b)"
  proof
    assume "\<exists>a b. c # cs = a @ n @ b"
    then obtain a b where ab: "c # cs = a @ n @ b" by blast
    show "(\<exists>b. c # cs = n @ b) \<or> (\<exists>a b. cs = a @ n @ b)"
    proof (cases a)
      case Nil
      with ab show ?thesis by auto
    next
      case (Cons x a')
      with ab have "cs = a' @ n @ b" by simp
      then show ?thesis by blast
    qed
  next
    assume "(\<exists>b. c # cs = n @ b) \<or> (\<exists>a b. cs = a @ n @ b)"
    then show "\<exists>a b. c # cs = a @ n @ b"
    proof
      assume "\<exists>b. c # cs = n @ b"
      then obtain b where "c # cs = [] @ n @ b" by auto
      then show ?thesis by blast
    next
      assume "\<exists>a b. cs = a @ n @ b"
      then obtain a b where "c # cs = (c # a) @ n @ b" by auto
      then show ?thesis by blast
    qed
  qed
  ultimately show ?case using Cons.IH by simp
qed

lemma contains_append:
  "contains n (u @ w) \<longleftrightarrow>
     contains n u \<or> contains n (drop (length u - (length n - 1)) u @ w)"
proof
  assume "contains n (u @ w)"
  then obtain a b where ab: "u @ w = a @ n @ b" by (auto simp: contains_iff)
  show "contains n u \<or> contains n (drop (length u - (length n - 1)) u @ w)"
  proof (cases "length a + length n \<le> length u")
    case True
    have "take (length a + length n) (u @ w) = a @ n" unfolding ab by simp
    with True have "take (length a + length n) u = a @ n" by simp
    then have "u = a @ n @ drop (length a + length n) u"
      by (metis append_assoc append_take_drop_id)
    then show ?thesis unfolding contains_iff by blast
  next
    case False
    then have k: "length u - (length n - 1) \<le> length a" by simp
    have "drop (length u - (length n - 1)) (u @ w) = drop (length u - (length n - 1)) a @ n @ b"
      unfolding ab using k by simp
    moreover have "drop (length u - (length n - 1)) (u @ w) = drop (length u - (length n - 1)) u @ w"
      by simp
    ultimately show ?thesis unfolding contains_iff by metis
  qed
next
  assume "contains n u \<or> contains n (drop (length u - (length n - 1)) u @ w)"
  then show "contains n (u @ w)"
  proof
    assume "contains n u"
    then obtain a b where "u = a @ n @ b" by (auto simp: contains_iff)
    then have "u @ w = a @ n @ (b @ w)" by simp
    then show ?thesis unfolding contains_iff by blast
  next
    assume "contains n (drop (length u - (length n - 1)) u @ w)"
    then obtain a b where "drop (length u - (length n - 1)) u @ w = a @ n @ b"
      by (auto simp: contains_iff)
    then have "u @ w = (take (length u - (length n - 1)) u @ a) @ n @ b"
      by (metis append_assoc append_take_drop_id)
    then show ?thesis unfolding contains_iff by blast
  qed
qed

lemma scan_contains: "scan n carry xs \<longleftrightarrow> contains n (carry @ concat xs)"
proof (induction xs arbitrary: carry)
  case Nil
  show ?case by simp
next
  case (Cons x xs)
  have "contains n ((carry @ x) @ concat xs) \<longleftrightarrow>
        contains n (carry @ x) \<or>
        contains n (drop (length (carry @ x) - (length n - 1)) (carry @ x) @ concat xs)"
    by (rule contains_append)
  with Cons.IH show ?case by simp
qed

lemma empty_document_clean:
  "case renderHTML_parts (JObj []) of
     Inl e \<Rightarrow> False
   | Inr ps \<Rightarrow> \<not> scan ''undefined'' [] (map part_text ps) \<and> \<not> scan ''null'' [] (map part_text ps)"
  by code_simp

lemma empty_document_html:
  "\<exists>html. renderHTML (JObj []) = Inr html \<and> \<not> contains ''undefined'' html \<and> \<not> contains ''null'' html"
  using empty_document_clean
  by (cases "renderHTML_parts (JObj [])") (simp_all add: renderHTML_def scan_contains)

subsection \<open>Segments of the template\<close>

lemma collect_append:
  "collect (xs @ ys) = and_then (collect xs) (\<lambda>ps. and_then (collect ys) (\<lambda>qs. Inr (ps @ qs)))"
proof (induction xs)
  case Nil
  show ?case by (cases "collect ys") simp_all
next
  case (Cons x xs)
  then show ?case by (cases x; cases "collect xs"; cases "collect ys") simp_all
qed

lemma collect_segment:
  assumes "collect xs = Inr ps" and "collect (take n (drop m xs)) = Inr seg"
  shows "\<exists>a b. ps = a @ seg @ b"
proof -
  have "take m xs @ take n (drop m xs) @ drop n (drop m xs) = xs"
    by (simp only: append_take_drop_id)
  then have "collect (take m xs @ take n (drop m xs) @ drop n (drop m xs)) = Inr ps"
    using assms(1) by (simp only:)
  then show ?thesis
    using assms(2)
    by (cases "collect (take m xs)"; cases "collect (drop n (drop m xs))")
       (auto simp: collect_append)
qed

lemma segment_contains:
  assumes "collect xs = Inr ps" and "collect (take n (drop m xs)) = Inr seg"
  shows "contains (concat (map part_text seg)) (concat (map part_text ps))"
proof -
  from collect_segment [OF assms] obtain a b where "ps = a @ seg @ b" by blast
  then have "concat (map part_text ps) =
      concat (map part_text a) @ concat (map part_text seg) @ concat (map part_text b)"
    by simp
  then show ?thesis unfolding contains_iff by blast
qed

lemma contains_trans: "contains a b \<Longrightarrow> contains b c \<Longrightarrow> contains a c"
proof -
  assume "contains a b" "contains b c"
  then obtain p q p' q' where "b = p @ a @ q" "c = p' @ b @ q'" by (auto simp: contains_iff)
  then have "c = (p' @ p) @ a @ (q @ q')" by simp
  then show ?thesis unfolding contains_iff by blast
qed

lemma falsy_default: "\<not> truthy v \<Longrightarrow> js_or v D = D"
  by (simp add: js_or_def)

lemma template_title:
  assumes "template h s badge = Inr ps" and "get_prop h ''business_name'' = Inr v" and "\<not> truthy v"
  shows "contains ''<title>Business Overview</title>'' (concat (map part_text ps))"
    and "contains ''<div class=\"h-title\">Business</div>'' (concat (map part_text ps))"
proof -
  have 1: "contains (concat (map part_text
      [Lit ''<title>'', Val (Header ''business_name'') ''Business Overview'', Lit ''</title>\<newline>'']))
      (concat (map part_text ps))"
    using assms(1) unfolding template_def
    apply (rule segment_contains [where m = 5 and n = 3])
    apply (simp add: lit_def val_def assms(2) falsy_default [OF assms(3)] escapeHtml_str
        replace_class_def special_def)
    done
  have 2: "contains (concat (map part_text
      [Lit ''      <div class=\"h-title\">'', Val (Header ''business_name'') ''Business'', Lit ''</div>\<newline>'']))
      (concat (map part_text ps))"
    using assms(1) unfolding template_def
    apply (rule segment_contains [where m = 23 and n = 3])
    apply (simp add: lit_def val_def assms(2) falsy_default [OF assms(3)] escapeHtml_str
        replace_class_def special_def)
    done
  show "contains ''<title>Business Overview</title>'' (concat (map part_text ps))"
    by (rule contains_trans [OF _ 1]) simp
  show "contains ''<div class=\"h-title\">Business</div>'' (concat (map part_text ps))"
    by (rule contains_trans [OF _ 2]) simp
qed

lemma template_pill:
  assumes "template h s (JStr ''Initiated'') = Inr ps"
  shows "contains ''<span class=\"pill\">Initiated</span>'' (concat (map part_text ps))"
proof -
  have 1: "contains (concat (map part_text
      [Lit ''    <div><span class=\"pill\">'',
       Val (Section ''overview'' ''growth_transparency_badge'') ''Initiated'',
       Lit ''</span></div>\<newline>'']))
      (concat (map part_text ps))"
    using assms(1) unfolding template_def
    apply (rule segment_contains [where m = 40 and n = 3])
    apply (simp add: lit_def val_def escapeHtml_str replace_class_def special_def)
    done
  show ?thesis by (rule contains_trans [OF _ 1]) simp
qed

lemma template_meta:
  assumes "template h s badge = Inr ps"
    and "get_prop h ''location_city'' = Inr v1" "\<not> truthy v1"
    and "get_prop h ''location_country'' = Inr v2" "\<not> truthy v2"
    and "get_prop h ''website_url'' = Inr v3" "\<not> truthy v3"
    and "get_prop h ''contact_email'' = Inr v4" "\<not> truthy v4"
  shows "contains
     ''<div class=\"h-meta\">\<newline>        \<newline>        \<newline>        \<newline>      </div>''
     (concat (map part_text ps))"
proof -
  have 1: "contains (concat (map part_text
      [Lit ''      <div class=\"h-meta\">\<newline>'', Lit ''        '', Lit [], Lit [], Lit [],
       Lit ''\<newline>'', Lit ''        '', Lit [], Lit ''\<newline>'', Lit ''        '', Lit [],
       Lit ''\<newline>'', Lit ''      </div>\<newline>'']))
      (concat (map part_text ps))"
    using assms(1) unfolding template_def
    apply (rule segment_contains [where m = 26 and n = 13])
    apply (simp add: lit_def assms)
    done
  show ?thesis by (rule contains_trans [OF _ 1]) simp
qed

subsection \<open>When the rendering returns\<close>

lemma isl_escapeHtml: "isl (escapeHtml v) \<longleftrightarrow> truthy v \<and> isl (to_string v)"
  by (cases "to_string v") (simp_all add: escapeHtml_def js_or_def)

lemma isl_escapeAttr: "isl (escapeAttr v) \<longleftrightarrow> truthy v \<and> isl (to_string v)"
  by (simp add: escapeAttr_eq isl_escapeHtml)

lemma converts_Inr: "converts (Inr v) \<longleftrightarrow> (truthy v \<longrightarrow> \<not> isl (to_string v))"
  by (simp add: converts_def)

lemma converts_Inl: "\<not> converts (Inl e)"
  by (simp add: converts_def)

lemma isl_collect: "isl (collect xs) \<longleftrightarrow> list_ex isl xs"
  using collect_isl [of xs] by (auto simp: list_all_iff list_ex_iff)

lemma isl_default:
  "isl (and_then r (\<lambda>v. escapeHtml (js_or v (JStr D)))) \<longleftrightarrow> \<not> converts r"
  by (cases r) (auto simp: converts_def isl_escapeHtml js_or_def)

lemma isl_cond:
  "isl (and_then r (\<lambda>c. if truthy c then val f (and_then r escapeHtml) else lit x)) \<longleftrightarrow> \<not> converts r"
  by (cases r) (auto simp: converts_def isl_escapeHtml)

lemma isl_link:
  "isl (and_then r (\<lambda>w. if truthy w then collect
           [lit a, val f (and_then r escapeAttr), lit b, val f (and_then r escapeHtml), lit c]
         else lit x)) \<longleftrightarrow> \<not> converts r"
  by (cases r) (auto simp: converts_def isl_escapeHtml isl_escapeAttr isl_collect simp del: collect.simps)

lemma isl_mail:
  "isl (and_then r (\<lambda>m. if truthy m then collect [lit a, val f (and_then r escapeHtml)] else lit x))
     \<longleftrightarrow> \<not> converts r"
  by (cases r) (auto simp: converts_def isl_escapeHtml isl_collect simp del: collect.simps)

lemma isl_separator:
  "converts r1 \<Longrightarrow> converts r2 \<Longrightarrow>
   \<not> isl (and_then (and_then r1 (\<lambda>a. if truthy a then r2 else Inr a))
            (\<lambda>c. if truthy c then lit x else lit y))"
  by (cases r1; cases r2) (auto simp: converts_def)

lemma isl_badge:
  "isl (escapeHtml (js_or bv (JStr D))) \<longleftrightarrow> \<not> converts (Inr bv)"
  by (auto simp: converts_def isl_escapeHtml js_or_def)

lemma collect_throws: "x \<in> set xs \<Longrightarrow> isl x \<Longrightarrow> isl (collect xs)"
  using collect_isl [of xs] by (auto simp: list_all_iff)

lemma template_returns:
  assumes "\<forall>f\<in>set template_fields. converts (read_in h s f)"
    and "opt_chain s ''overview'' ''growth_transparency_badge'' = Inr bv"
  shows "\<not> isl (template h s (js_or bv (JStr ''Initiated'')))"
proof -
  have hk: "converts (get_prop h k)" if "k \<in> set header_keys" for k
    using assms(1) that by (force simp: template_fields_def)
  have sk: "converts (opt_chain s a b)" if "(a, b) \<in> set section_keys" for a b
    using assms(1) that by (force simp: template_fields_def)
  have bn: "converts (get_prop h ''business_name'')"
    and lc: "converts (get_prop h ''location_city'')"
    and lo: "converts (get_prop h ''location_country'')"
    and wu: "converts (get_prop h ''website_url'')"
    and ce: "converts (get_prop h ''contact_email'')"
    by (rule hk, simp add: header_keys_def)+
  have bg: "converts (Inr bv)"
    using sk [of "''overview''" "''growth_transparency_badge''"] assms(2)
    by (simp add: section_keys_def)
  have s2: "converts (opt_chain s a b)" if "(a, b) \<in> set (tl section_keys)" for a b
    using that by (intro sk) (simp add: section_keys_def)
  show ?thesis
    unfolding template_def
    apply (simp only: collect_isl)
    apply (simp add: isl_default isl_cond isl_link isl_mail isl_separator isl_badge
        bn lc lo wu ce bg s2 section_keys_def del: collect.simps)
    done
qed

lemma header_throws:
  assumes "k \<in> set header_keys" and "\<not> converts (get_prop h k)"
  shows "isl (template h s badge)"
proof -
  from assms(1) have "k = ''business_name'' \<or> k = ''location_city'' \<or>
      k = ''location_country'' \<or> k = ''website_url'' \<or> k = ''contact_email''"
    by (simp add: header_keys_def)
  then show ?thesis
  proof (elim disjE)
    assume 1: "k = ''business_name''"
    show ?thesis
      unfolding template_def
      apply (rule collect_throws [where x = "val (Header ''business_name'')
          (and_then (get_prop h ''business_name'') (\<lambda>v. escapeHtml (js_or v (JStr ''Business''))))"])
       apply simp
      using assms(2) apply (simp add: isl_default 1)
      done
  next
    assume 2: "k = ''location_city''"
    show ?thesis
      unfolding template_def
      apply (rule collect_throws [where x = "and_then (get_prop h ''location_city'') (\<lambda>c.
         if truthy c then val (Header ''location_city'') (and_then (get_prop h ''location_city'') escapeHtml)
         else lit [])"])
       apply simp
      using assms(2) apply (simp add: isl_cond 2)
      done
  next
    assume 3: "k = ''location_country''"
    show ?thesis
      unfolding template_def
      apply (rule collect_throws [where x = "and_then (get_prop h ''location_country'') (\<lambda>c.
         if truthy c then val (Header ''location_country'') (and_then (get_prop h ''location_country'') escapeHtml)
         else lit [])"])
       apply simp
      using assms(2) apply (simp add: isl_cond 3)
      done
  next
    assume 4: "k = ''website_url''"
    show ?thesis
      unfolding template_def
      apply (rule collect_throws [where x = "and_then (get_prop h ''website_url'') (\<lambda>w.
         if truthy w then collect
           [lit ('' '' @ bullet @ '' <a href=\"''),
            val (Header ''website_url'') (and_then (get_prop h ''website_url'') escapeAttr),
            lit ''\">'',
            val (Header ''website_url'') (and_then (get_prop h ''website_url'') escapeHtml),
            lit ''</a>'']
         else lit [])"])
       apply simp
      using assms(2) apply (simp add: isl_link 4 del: collect.simps)
      done
  next
    assume 5: "k = ''contact_email''"
    show ?thesis
      unfolding template_def
      apply (rule collect_throws [where x = "and_then (get_prop h ''contact_email'') (\<lambda>m.
         if truthy m then collect
           [lit ('' '' @ bullet @ '' ''),
            val (Header ''contact_email'') (and_then (get_prop h ''contact_email'') escapeHtml)]
         else lit [])"])
       apply simp
      using assms(2) apply (simp add: isl_mail 5 del: collect.simps)
      done
  qed
qed

lemma badge_throws:
  assumes "\<not> converts (Inr bv)"
  shows "isl (template h s (js_or bv (JStr ''Initiated'')))"
  unfolding template_def
  apply (rule collect_throws [where x = "val (Section ''overview'' ''growth_transparency_badge'')
      (escapeHtml (js_or bv (JStr ''Initiated'')))"])
   apply simp
  using assms apply (simp add: isl_badge)
  done

lemma section_item:
  assumes "(a, b) \<in> set (tl section_keys)"
  shows "val (Section a b) (and_then (opt_chain s a b) (\<lambda>v. escapeHtml (js_or v (JStr []))))
      \<in> set (map (\<lambda>(a, b). val (Section a b)
                 (and_then (opt_chain s a b) (\<lambda>v. escapeHtml (js_or v (JStr []))))) (tl section_keys))"
  using assms by force

lemma section_throws:
  assumes "(a, b) \<in> set (tl section_keys)" and "\<not> converts (opt_chain s a b)"
  shows "isl (template h s badge)"
  unfolding template_def
  apply (rule collect_throws [where x = "val (Section a b)
      (and_then (opt_chain s a b) (\<lambda>v. escapeHtml (js_or v (JStr []))))"])
  using section_item [OF assms(1), of s] apply (simp add: section_keys_def del: collect.simps)
   apply blast
  using assms(2) apply (simp add: isl_default)
  done

lemma template_throws:
  assumes "f \<in> set template_fields" and "\<not> converts (read_in h s f)"
    and "opt_chain s ''overview'' ''growth_transparency_badge'' = Inr bv"
  shows "isl (template h s (js_or bv (JStr ''Initiated'')))"
proof -
  from assms(1) consider (header) k where "k \<in> set header_keys" "f = Header k"
    | (sect) a b where "(a, b) \<in> set section_keys" "f = Section a b"
    by (auto simp: template_fields_def)
  then show ?thesis
  proof cases
    case header
    with assms(2) show ?thesis by (intro header_throws [of k]) simp_all
  next
    case sect
    from sect(1) have "(a, b) = (''overview'', ''growth_transparency_badge'') \<or> (a, b) \<in> set (tl section_keys)"
      by (simp add: section_keys_def)
    then show ?thesis
    proof
      assume "(a, b) = (''overview'', ''growth_transparency_badge'')"
      with assms(2,3) sect(2) have "\<not> converts (Inr bv)" by simp
      then show ?thesis by (rule badge_throws)
    next
      assume "(a, b) \<in> set (tl section_keys)"
      moreover from assms(2) sect(2) have "\<not> converts (opt_chain s a b)" by simp
      ultimately show ?thesis by (rule section_throws)
    qed
  qed
qed

lemma render_returns_iff:
  "\<not> isl (renderHTML d) \<longleftrightarrow> (\<forall>f\<in>set template_fields. converts (field_read d f))"
proof (cases d rule: render_cases)
  case (thrown e)
  then have "isl (renderHTML d)" by (simp add: renderHTML_def)
  moreover have "\<not> converts (field_read d (Header ''business_name''))"
    by (simp add: thrown(4) converts_Inl)
  ultimately show ?thesis using business_name_field by blast
next
  case (rendered hv sv bv)
  note u = renderHTML_parts_unfold [OF rendered(2-4)]
  have r: "isl (renderHTML d) = isl (renderHTML_parts d)"
    by (cases "renderHTML_parts d") (simp_all add: renderHTML_def)
  show ?thesis
    unfolding r u
    using template_returns [OF _ rendered(4)] template_throws [OF _ _ rendered(4)]
    by blast
qed

subsection \<open>What an absent field leaves in the rendering\<close>

lemma no_part_lit: "parts_all (\<lambda>p. \<forall>t. p \<noteq> Val f t) (lit x)"
  by (simp add: parts_all_def lit_def)

lemma no_part_val: "g \<noteq> f \<Longrightarrow> parts_all (\<lambda>p. \<forall>t. p \<noteq> Val f t) (val g r)"
  by (cases r) (simp_all add: parts_all_def val_def)

lemma template_no_part:
  assumes "k \<in> set (tl header_keys)" and "get_prop h k = Inr v" and "\<not> truthy v"
  shows "parts_all (\<lambda>p. \<forall>t. p \<noteq> Val (Header k) t) (template h s badge)"
proof -
  from assms(1) have "k = ''location_city'' \<or> k = ''location_country'' \<or>
      k = ''website_url'' \<or> k = ''contact_email''"
    by (simp add: header_keys_def)
  then show ?thesis
  proof (elim disjE)
    assume 1: "k = ''location_city''"
    show ?thesis
      unfolding template_def 1
      apply (rule parts_all_collect)
      using assms(2,3) unfolding 1
      apply (simp add: no_part_lit no_part_val parts_all_cond parts_all_collect del: collect.simps)
      done
  next
    assume 2: "k = ''location_country''"
    show ?thesis
      unfolding template_def 2
      apply (rule parts_all_collect)
      using assms(2,3) unfolding 2
      apply (simp add: no_part_lit no_part_val parts_all_cond parts_all_collect del: collect.simps)
      done
  next
    assume 3: "k = ''website_url''"
    show ?thesis
      unfolding template_def 3
      apply (rule parts_all_collect)
      using assms(2,3) unfolding 3
      apply (simp add: no_part_lit no_part_val parts_all_cond parts_all_collect del: collect.simps)
      done
  next
    assume 4: "k = ''contact_email''"
    show ?thesis
      unfolding template_def 4
      apply (rule parts_all_collect)
      using assms(2,3) unfolding 4
      apply (simp add: no_part_lit no_part_val parts_all_cond parts_all_collect del: collect.simps)
      done
  qed
qed

lemma absent_not_interpolated:
  assumes "k \<in> set (tl header_keys)" and "field_read d (Header k) = Inr v" and "\<not> truthy v"
  shows "substituted d (Header k) = []"
proof (cases d rule: render_cases)
  case (thrown e)
  then show ?thesis by (simp add: substituted_def)
next
  case (rendered hv sv bv)
  note u = renderHTML_parts_unfold [OF rendered(2-4)]
  from assms(2) have "get_prop (js_or hv (JObj [])) k = Inr v" unfolding u(2) by simp
  from template_no_part [OF assms(1) this assms(3)]
  have "parts_all (\<lambda>p. \<forall>t. p \<noteq> Val (Header k) t) (renderHTML_parts d)" unfolding u(1) .
  then have "t \<notin> set (substituted d (Header k))" for t
    by (cases "renderHTML_parts d") (auto simp: substituted_member parts_all_def list_all_iff)
  then show ?thesis by (cases "substituted d (Header k)") auto
qed

lemma section_rendered:
  assumes "template h s badge = Inr ps" and "(a, b) \<in> set (tl section_keys)"
    and "opt_chain s a b = Inr v" and "\<not> truthy v"
  shows "Val (Section a b) [] \<in> set ps"
proof -
  have "set [Val (Section a b) []] \<subseteq> set ps"
    using assms(1) unfolding template_def
    apply (rule collect_member [where x = "val (Section a b)
        (and_then (opt_chain s a b) (\<lambda>v. escapeHtml (js_or v (JStr []))))"])
    using section_item [OF assms(2), of s] apply (simp add: section_keys_def del: collect.simps)
     apply blast
    apply (simp add: val_def assms(3,4) js_or_def escapeHtml_str replace_class_def)
    done
  then show ?thesis by simp
qed

subsection \<open>The HTML of a document with absent fields\<close>

lemma rendered_parts:
  assumes "renderHTML d = Inr html"
  obtains hv sv bv ps where
    "template (js_or hv (JObj [])) (js_or sv (JObj [])) (js_or bv (JStr ''Initiated'')) = Inr ps"
    "renderHTML_parts d = Inr ps"
    "html = concat (map part_text ps)"
    "\<And>f. field_read d f = read_in (js_or hv (JObj [])) (js_or sv (JObj [])) f"
    "opt_chain (js_or sv (JObj [])) ''overview'' ''growth_transparency_badge'' = Inr bv"
proof (cases d rule: render_cases)
  case (thrown e)
  with assms show ?thesis by (simp add: renderHTML_def)
next
  case (rendered hv sv bv)
  note u = renderHTML_parts_unfold [OF rendered(2-4)]
  from assms obtain ps where ps: "renderHTML_parts d = Inr ps" "html = concat (map part_text ps)"
    by (cases "renderHTML_parts d") (auto simp: renderHTML_def)
  from ps(1) have "template (js_or hv (JObj [])) (js_or sv (JObj [])) (js_or bv (JStr ''Initiated'')) = Inr ps"
    unfolding u(1) .
  then show ?thesis using ps u(2) rendered(4) by (rule that)
qed

lemma template_name_parts:
  assumes "template h s badge = Inr ps" and "get_prop h ''business_name'' = Inr v" and "\<not> truthy v"
  shows "Val (Header ''business_name'') ''Business Overview'' \<in> set ps"
    and "Val (Header ''business_name'') ''Business'' \<in> set ps"
proof -
  have "set [Val (Header ''business_name'') ''Business Overview''] \<subseteq> set ps"
    using assms(1) unfolding template_def
    apply (rule collect_member [where x = "val (Header ''business_name'')
        (and_then (get_prop h ''business_name'') (\<lambda>v. escapeHtml (js_or v (JStr ''Business Overview''))))"])
     apply simp
    apply (simp add: val_def assms(2) falsy_default [OF assms(3)] escapeHtml_str
        replace_class_def special_def)
    done
  then show "Val (Header ''business_name'') ''Business Overview'' \<in> set ps" by simp
  have "set [Val (Header ''business_name'') ''Business''] \<subseteq> set ps"
    using assms(1) unfolding template_def
    apply (rule collect_member [where x = "val (Header ''business_name'')
        (and_then (get_prop h ''business_name'') (\<lambda>v. escapeHtml (js_or v (JStr ''Business''))))"])
     apply simp
    apply (simp add: val_def assms(2) falsy_default [OF assms(3)] escapeHtml_str
        replace_class_def special_def)
    done
  then show "Val (Header ''business_name'') ''Business'' \<in> set ps" by simp
qed

lemma absent_name_html:
  assumes "renderHTML d = Inr html" and "field_read d (Header ''business_name'') = Inr v"
    and "\<not> truthy v"
  shows "contains ''<title>Business Overview</title>'' html"
    and "contains ''<div class=\"h-title\">Business</div>'' html"
    and "set (substituted d (Header ''business_name'')) = {''Business Overview'', ''Business''}"
proof -
  from assms(1) obtain hv sv bv ps where r:
    "template (js_or hv (JObj [])) (js_or sv (JObj [])) (js_or bv (JStr ''Initiated'')) = Inr ps"
    "renderHTML_parts d = Inr ps"
    "html = concat (map part_text ps)"
    "\<And>f. field_read d f = read_in (js_or hv (JObj [])) (js_or sv (JObj [])) f"
    "opt_chain (js_or sv (JObj [])) ''overview'' ''growth_transparency_badge'' = Inr bv"
    by (rule rendered_parts) blast
  from assms(2) have g: "get_prop (js_or hv (JObj [])) ''business_name'' = Inr v"
    by (simp add: r(4))
  show "contains ''<title>Business Overview</title>'' html"
    unfolding r(3) using r(1) g assms(3) by (rule template_title(1))
  show "contains ''<div class=\"h-title\">Business</div>'' html"
    unfolding r(3) using r(1) g assms(3) by (rule template_title(2))
  from template_name_parts [OF r(1) g assms(3)] r(2)
  have 1: "''Business Overview'' \<in> set (substituted d (Header ''business_name''))"
    and 2: "''Business'' \<in> set (substituted d (Header ''business_name''))"
    by (auto simp: substituted_member)
  have 3: "t = ''Business Overview'' \<or> t = ''Business''"
    if "t \<in> set (substituted d (Header ''business_name''))" for t
  proof -
    from that obtain w D where "field_read d (Header ''business_name'') = Inr w"
      "D \<in> set (fallbacks (Header ''business_name''))" "escapeHtml (js_or w (JStr D)) = Inr t"
      using render_from_fields by blast
    with assms(2,3) have D: "D \<in> set (fallbacks (Header ''business_name''))"
      "escapeHtml (JStr D) = Inr t"
      by (simp_all add: js_or_def)
    then have "t = D" using fallbacks_plain by fastforce
    with D(1) show ?thesis by (simp add: fallbacks_def)
  qed
  from 1 2 3 show "set (substituted d (Header ''business_name'')) = {''Business Overview'', ''Business''}"
    by blast
qed

lemma absent_badge_html:
  assumes "renderHTML d = Inr html"
    and "field_read d (Section ''overview'' ''growth_transparency_badge'') = Inr v"
    and "\<not> truthy v"
  shows "contains ''<span class=\"pill\">Initiated</span>'' html"
    and "set (substituted d (Section ''overview'' ''growth_transparency_badge'')) = {''Initiated''}"
proof -
  let ?b = "Section ''overview'' ''growth_transparency_badge''"
  from assms(1) obtain hv sv bv ps where r:
    "template (js_or hv (JObj [])) (js_or sv (JObj [])) (js_or bv (JStr ''Initiated'')) = Inr ps"
    "renderHTML_parts d = Inr ps"
    "html = concat (map part_text ps)"
    "\<And>f. field_read d f = read_in (js_or hv (JObj [])) (js_or sv (JObj [])) f"
    "opt_chain (js_or sv (JObj [])) ''overview'' ''growth_transparency_badge'' = Inr bv"
    by (rule rendered_parts) blast
  from assms(2) r(5) have "bv = v" by (simp add: r(4))
  with assms(3) have b: "js_or bv (JStr ''Initiated'') = JStr ''Initiated''"
    by (simp add: js_or_def)
  note tp = r(1) [unfolded b]
  show "contains ''<span class=\"pill\">Initiated</span>'' html"
    unfolding r(3) using tp by (rule template_pill)
  have e: "escapeHtml (JStr ''Initiated'') = Inr ''Initiated''"
    by (rule fallbacks_plain [of _ ?b]) (simp add: fallbacks_def)
  from tp e have "Val ?b ''Initiated'' \<in> set ps" by (rule badge_rendered)
  with r(2) have 1: "''Initiated'' \<in> set (substituted d ?b)" by (auto simp: substituted_member)
  have 2: "t = ''Initiated''" if "t \<in> set (substituted d ?b)" for t
  proof -
    from that obtain w D where "field_read d ?b = Inr w" "D \<in> set (fallbacks ?b)"
      "escapeHtml (js_or w (JStr D)) = Inr t"
      using render_from_fields by blast
    with assms(2,3) have "D = ''Initiated''" "escapeHtml (JStr D) = Inr t"
      by (simp_all add: js_or_def fallbacks_def)
    with e show ?thesis by simp
  qed
  from 1 2 show "set (substituted d ?b) = {''Initiated''}" by blast
qed

lemma absent_section:
  assumes "renderHTML d = Inr html" and "(a, b) \<in> set (tl section_keys)"
    and "field_read d (Section a b) = Inr v" and "\<not> truthy v"
  shows "set (substituted d (Section a b)) = {[]}"
proof -
  from assms(1) obtain hv sv bv ps where r:
    "template (js_or hv (JObj [])) (js_or sv (JObj [])) (js_or bv (JStr ''Initiated'')) = Inr ps"
    "renderHTML_parts d = Inr ps"
    "html = concat (map part_text ps)"
    "\<And>f. field_read d f = read_in (js_or hv (JObj [])) (js_or sv (JObj [])) f"
    "opt_chain (js_or sv (JObj [])) ''overview'' ''growth_transparency_badge'' = Inr bv"
    by (rule rendered_parts) blast
  from assms(3) have "opt_chain (js_or sv (JObj [])) a b = Inr v" by (simp add: r(4))
  with r(1) assms(2) have "Val (Section a b) [] \<in> set ps"
    using assms(4) by (rule section_rendered)
  with r(2) have 1: "[] \<in> set (substituted d (Section a b))" by (auto simp: substituted_member)
  have "(''overview'', ''growth_transparency_badge'') \<notin> set (tl section_keys)"
    by (simp add: section_keys_def)
  with assms(2) have f: "fallbacks (Section a b) = [[]]" by (auto simp: fallbacks_def)
  have 2: "t = []" if "t \<in> set (substituted d (Section a b))" for t
  proof -
    from that obtain w D where "field_read d (Section a b) = Inr w" "D \<in> set (fallbacks (Section a b))"
      "escapeHtml (js_or w (JStr D)) = Inr t"
      using render_from_fields by blast
    with assms(3,4) f have "escapeHtml (JStr []) = Inr t" by (simp add: js_or_def)
    then show ?thesis by (simp add: escapeHtml_str replace_class_def)
  qed
  from 1 2 show ?thesis by blast
qed

lemma absent_meta_html:
  assumes "renderHTML d = Inr html"
    and "\<forall>k\<in>set (tl header_keys). field_read d (Header k) = Inr JUndefined"
  shows "contains
     ''<div class=\"h-meta\">\<newline>        \<newline>        \<newline>        \<newline>      </div>'' html"
proof -
  from assms(1) obtain hv sv bv ps where r:
    "template (js_or hv (JObj [])) (js_or sv (JObj [])) (js_or bv (JStr ''Initiated'')) = Inr ps"
    "renderHTML_parts d = Inr ps"
    "html = concat (map part_text ps)"
    "\<And>f. field_read d f = read_in (js_or hv (JObj [])) (js_or sv (JObj [])) f"
    "opt_chain (js_or sv (JObj [])) ''overview'' ''growth_transparency_badge'' = Inr bv"
    by (rule rendered_parts) blast
  have g: "get_prop (js_or hv (JObj [])) k = Inr JUndefined" if "k \<in> set (tl header_keys)" for k
    using assms(2) that by (simp add: r(4))
  have u: "\<not> truthy JUndefined" by simp
  show ?thesis
    unfolding r(3) using r(1)
    by (rule template_meta [OF _ g u g u g u g u]) (simp_all add: header_keys_def)
qed

text \<open>A document whose contact e-mail is an object with a property \<^verbatim>\<open>toString\<close>.\<close>

lemma unprintable_document:
  "renderHTML (JObj [(''header'', JObj [(''contact_email'', JObj [(''toString'', JNum ''1'')])])])
     = Inl (JsError ''Cannot convert object to primitive value'')"
  by code_simp

text \<open>
  Claim C7, as amended. \<^verbatim>\<open>renderHTML\<close> returns exactly on the documents in which
  every field of the template is read without an error (the document is neither
  \<^verbatim>\<open>null\<close> nor \<^verbatim>\<open>undefined\<close>) and no field holds a truthy value whose
  conversion to a string throws; on the others it throws and there is no HTML. For every
  document and every field absent from it, every text interpolated for the field is the
  empty string, except for \<^verbatim>\<open>business_name\<close>, which falls back to
  \<^verbatim>\<open>Business Overview\<close> and \<^verbatim>\<open>Business\<close>, never to the empty string,
  and for the status badge, which falls back to \<^verbatim>\<open>Initiated\<close>; no such text
  contains \<^verbatim>\<open>undefined\<close> or \<^verbatim>\<open>null\<close>. When \<^verbatim>\<open>renderHTML\<close>
  returns the HTML of a document: if \<^verbatim>\<open>business_name\<close> is absent, both defaults
  are interpolated and nothing else for the field, and the HTML has the title
  \<^verbatim>\<open>Business Overview\<close> and the heading \<^verbatim>\<open>Business\<close>; if the badge is
  absent, the only text interpolated for it is \<^verbatim>\<open>Initiated\<close>, inside the pill;
  if another section field is absent, the only text interpolated for it is the empty
  string; if the four other header fields are absent, the block under the heading holds
  nothing but its three blank lines. Nothing is interpolated for an absent header field
  other than \<^verbatim>\<open>business_name\<close>. A document without a field of the data model
  renders exactly as the document with the empty string in that field. The HTML of the
  entirely empty document contains neither \<^verbatim>\<open>undefined\<close> nor \<^verbatim>\<open>null\<close>.
\<close>

theorem absent_fields_render_defaults:
  "(\<not> isl (renderHTML d) \<longleftrightarrow> (\<forall>g\<in>set template_fields. converts (field_read d g))) \<and>
   (field_read d f = Inr JUndefined \<and> t \<in> set (substituted d f) \<longrightarrow>
      ((f = Header ''business_name'' \<and> (t = ''Business Overview'' \<or> t = ''Business'')) \<or>
       (f = Section ''overview'' ''growth_transparency_badge'' \<and> t = ''Initiated'') \<or>
       (f \<noteq> Header ''business_name'' \<and> f \<noteq> Section ''overview'' ''growth_transparency_badge'' \<and>
        t = [])) \<and>
      \<not> contains ''undefined'' t \<and> \<not> contains ''null'' t) \<and>
   (renderHTML d = Inr html \<and> field_read d (Header ''business_name'') = Inr JUndefined \<longrightarrow>
      set (substituted d (Header ''business_name'')) = {''Business Overview'', ''Business''} \<and>
      contains ''<title>Business Overview</title>'' html \<and>
      contains ''<div class=\"h-title\">Business</div>'' html) \<and>
   (renderHTML d = Inr html \<and>
    field_read d (Section ''overview'' ''growth_transparency_badge'') = Inr JUndefined \<longrightarrow>
      set (substituted d (Section ''overview'' ''growth_transparency_badge'')) = {''Initiated''} \<and>
      contains ''<span class=\"pill\">Initiated</span>'' html) \<and>
   (renderHTML d = Inr html \<and> (a, b) \<in> set (tl section_keys) \<and>
    field_read d (Section a b) = Inr JUndefined \<longrightarrow>
      set (substituted d (Section a b)) = {[]}) \<and>
   (k \<in> set (tl header_keys) \<and> field_read d (Header k) = Inr JUndefined \<longrightarrow>
      substituted d (Header k) = []) \<and>
   (renderHTML d = Inr html \<and>
    (\<forall>k\<in>set (tl header_keys). field_read d (Header k) = Inr JUndefined) \<longrightarrow>
      contains
        ''<div class=\"h-meta\">\<newline>        \<newline>        \<newline>        \<newline>      </div>''
        html) \<and>
   (document_field p \<longrightarrow> renderHTML (without_field p d) = renderHTML (with_field p (JStr []) d)) \<and>
   (\<exists>html. renderHTML (JObj []) = Inr html \<and>
      \<not> contains ''undefined'' html \<and> \<not> contains ''null'' html)"
proof -
  let ?b = "Section ''overview'' ''growth_transparency_badge''"
  have u: "\<not> truthy JUndefined" by simp
  have G: "\<not> isl (renderHTML d) \<longleftrightarrow> (\<forall>g\<in>set template_fields. converts (field_read d g))"
    by (rule render_returns_iff)
  have A: "field_read d f = Inr JUndefined \<and> t \<in> set (substituted d f) \<longrightarrow>
      ((f = Header ''business_name'' \<and> (t = ''Business Overview'' \<or> t = ''Business'')) \<or>
       (f = ?b \<and> t = ''Initiated'') \<or>
       (f \<noteq> Header ''business_name'' \<and> f \<noteq> ?b \<and> t = [])) \<and>
      \<not> contains ''undefined'' t \<and> \<not> contains ''null'' t"
  proof (intro impI conjI)
    assume a: "field_read d f = Inr JUndefined \<and> t \<in> set (substituted d f)"
    then obtain w D where "field_read d f = Inr w" "D \<in> set (fallbacks f)"
      "escapeHtml (js_or w (JStr D)) = Inr t"
      using render_from_fields by blast
    with a have D: "D \<in> set (fallbacks f)" "escapeHtml (JStr D) = Inr t" by (simp_all add: js_or_def)
    then have t: "t = D" using fallbacks_plain by fastforce
    show "(f = Header ''business_name'' \<and> (t = ''Business Overview'' \<or> t = ''Business'')) \<or>
         (f = ?b \<and> t = ''Initiated'') \<or>
         (f \<noteq> Header ''business_name'' \<and> f \<noteq> ?b \<and> t = [])"
      using D(1) unfolding t by (auto simp: fallbacks_def split: if_splits)
    show "\<not> contains ''undefined'' t" "\<not> contains ''null'' t"
      using fallbacks_clean [OF D(1)] unfolding t by simp_all
  qed
  have B: "renderHTML d = Inr html \<and> field_read d (Header ''business_name'') = Inr JUndefined \<longrightarrow>
      set (substituted d (Header ''business_name'')) = {''Business Overview'', ''Business''} \<and>
      contains ''<title>Business Overview</title>'' html \<and>
      contains ''<div class=\"h-title\">Business</div>'' html"
    using absent_name_html [OF _ _ u, of d html] by blast
  have C: "renderHTML d = Inr html \<and> field_read d ?b = Inr JUndefined \<longrightarrow>
      set (substituted d ?b) = {''Initiated''} \<and>
      contains ''<span class=\"pill\">Initiated</span>'' html"
    using absent_badge_html [OF _ _ u, of d html] by blast
  have D: "renderHTML d = Inr html \<and> (a, b) \<in> set (tl section_keys) \<and>
      field_read d (Section a b) = Inr JUndefined \<longrightarrow>
      set (substituted d (Section a b)) = {[]}"
    using absent_section [OF _ _ _ u, of d html a b] by blast
  have E: "k \<in> set (tl header_keys) \<and> field_read d (Header k) = Inr JUndefined \<longrightarrow>
      substituted d (Header k) = []"
    using absent_not_interpolated [OF _ _ u, of k d] by blast
  have M: "renderHTML d = Inr html \<and>
      (\<forall>k\<in>set (tl header_keys). field_read d (Header k) = Inr JUndefined) \<longrightarrow>
      contains
        ''<div class=\"h-meta\">\<newline>        \<newline>        \<newline>        \<newline>      </div>''
        html"
    using absent_meta_html [of d html] by blast
  have F: "document_field p \<longrightarrow> renderHTML (without_field p d) = renderHTML (with_field p (JStr []) d)"
  proof
    assume "document_field p"
    then have "\<forall>f\<in>set template_fields.
        same_truth (field_read (with_field p (JStr []) d) f) (field_read (without_field p d) f)"
      using falsy_reads [of p "JStr []" d] by simp
    then have "renderHTML_parts (with_field p (JStr []) d) = renderHTML_parts (without_field p d)"
      by (rule render_agree)
    then show "renderHTML (without_field p d) = renderHTML (with_field p (JStr []) d)"
      by (simp add: renderHTML_def)
  qed
  have H: "\<exists>html. renderHTML (JObj []) = Inr html \<and>
      \<not> contains ''undefined'' html \<and> \<not> contains ''null'' html"
    by (rule empty_document_html)
  show ?thesis by (intro conjI G A B C D E M F H)
qed

text \<open>The entirely empty document, and the example document for the removed field.\<close>

theorem absent_fields_render_defaults_witness:
  "\<not> isl (renderHTML (JObj [])) \<and>
   field_read (JObj []) (Header ''business_name'') = Inr JUndefined \<and>
   ''Business'' \<in> set (substituted (JObj []) (Header ''business_name'')) \<and>
   \<not> contains ''undefined'' ''Business'' \<and> \<not> contains ''null'' ''Business'' \<and>
   (\<exists>html. renderHTML (JObj []) = Inr html \<and>
      contains ''<title>Business Overview</title>'' html \<and>
      contains ''<div class=\"h-title\">Business</div>'' html \<and>
      contains ''<span class=\"pill\">Initiated</span>'' html \<and>
      contains
        ''<div class=\"h-meta\">\<newline>        \<newline>        \<newline>        \<newline>      </div>''
        html) \<and>
   set (substituted (JObj []) (Header ''business_name'')) = {''Business Overview'', ''Business''} \<and>
   set (substituted (JObj []) (Section ''overview'' ''growth_transparency_badge'')) = {''Initiated''} \<and>
   set (substituted (JObj []) (Section ''overview'' ''ai_summary'')) = {[]} \<and>
   substituted (JObj []) (Header ''website_url'') = [] \<and>
   renderHTML (JObj [(''header'', JObj [(''business_name'', JStr ''Acme'')]), (''sections'', JObj [])])
     = renderHTML (JObj [(''header'', JObj [(''business_name'', JStr ''Acme''), (''website_url'', JStr [])]),
                         (''sections'', JObj [])])"
proof -
  obtain h where h: "renderHTML (JObj []) = Inr h" using empty_document_html by blast
  have r: "field_read (JObj []) g = Inr JUndefined" for g
    by (cases g) (simp_all add: field_read_def js_or_def opt_chain_def opt_get_def nullish_def)
  have cv: "\<forall>g\<in>set template_fields. converts (field_read (JObj []) g)"
    by (simp add: r converts_def)
  have hs: "\<forall>k\<in>set (tl header_keys). field_read (JObj []) (Header k) = Inr JUndefined"
    by (simp add: r)
  have 2: "''Business'' \<in> set (substituted (JObj []) (Header ''business_name''))"
    by (simp add: empty_document)
  have sk: "(''overview'', ''ai_summary'') \<in> set (tl section_keys)"
    by (simp add: section_keys_def)
  have hk: "''website_url'' \<in> set (tl header_keys)"
    by (simp add: header_keys_def)
  note T = absent_fields_render_defaults [where d = "JObj []" and f = "Header ''business_name''"
      and t = "''Business''" and html = h and a = "''overview''" and b = "''ai_summary''"
      and k = "''website_url''" and p = "[]"]
  have G: "\<not> isl (renderHTML (JObj []))"
    using T [THEN conjunct1] cv by blast
  have A: "\<not> contains ''undefined'' ''Business'' \<and> \<not> contains ''null'' ''Business''"
    using T [THEN conjunct2, THEN conjunct1] r 2 by blast
  have B: "set (substituted (JObj []) (Header ''business_name'')) = {''Business Overview'', ''Business''} \<and>
      contains ''<title>Business Overview</title>'' h \<and>
      contains ''<div class=\"h-title\">Business</div>'' h"
    using T [THEN conjunct2, THEN conjunct2, THEN conjunct1] h r by blast
  have C: "set (substituted (JObj []) (Section ''overview'' ''growth_transparency_badge'')) = {''Initiated''} \<and>
      contains ''<span class=\"pill\">Initiated</span>'' h"
    using T [THEN conjunct2, THEN conjunct2, THEN conjunct2, THEN conjunct1] h r by blast
  have D: "set (substituted (JObj []) (Section ''overview'' ''ai_summary'')) = {[]}"
    using T [THEN conjunct2, THEN conjunct2, THEN conjunct2, THEN conjunct2, THEN conjunct1] h r sk
    by blast
  have E: "substituted (JObj []) (Header ''website_url'') = []"
    using T [THEN conjunct2, THEN conjunct2, THEN conjunct2, THEN conjunct2, THEN conjunct2,
        THEN conjunct1] r hk
    by blast
  have M: "contains
        ''<div class=\"h-meta\">\<newline>        \<newline>        \<newline>        \<newline>      </div>'' h"
    using T [THEN conjunct2, THEN conjunct2, THEN conjunct2, THEN conjunct2, THEN conjunct2,
        THEN conjunct2, THEN conjunct1] h hs
    by blast
  have 5: "document_field [''header'', ''website_url'']" by simp
  have "renderHTML (without_field [''header'', ''website_url''] example_document)
      = renderHTML (with_field [''header'', ''website_url''] (JStr []) example_document)"
    using absent_fields_render_defaults [where d = example_document and f = "Header ''business_name''"
        and t = "[]" and html = "[]" and a = "[]" and b = "[]" and k = "[]"
        and p = "[''header'', ''website_url'']", THEN conjunct2, THEN conjunct2, THEN conjunct2,
        THEN conjunct2, THEN conjunct2, THEN conjunct2, THEN conjunct2, THEN conjunct1] 5
    by blast
  then have F: "renderHTML (JObj [(''header'', JObj [(''business_name'', JStr ''Acme'')]), (''sections'', JObj [])])
     = renderHTML (JObj [(''header'', JObj [(''business_name'', JStr ''Acme''), (''website_url'', JStr [])]),
                         (''sections'', JObj [])])"
    by (simp add: example_document_def)
  from B C M h have X: "\<exists>html. renderHTML (JObj []) = Inr html \<and>
      contains ''<title>Business Overview</title>'' html \<and>
      contains ''<div class=\"h-title\">Business</div>'' html \<and>
      contains ''<span class=\"pill\">Initiated</span>'' html \<and>
      contains
        ''<div class=\"h-meta\">\<newline>        \<newline>        \<newline>        \<newline>      </div>''
        html"
    by blast
  from C have C1: "set (substituted (JObj []) (Section ''overview'' ''growth_transparency_badge'')) = {''Initiated''}"
    by (rule conjunct1)
  show ?thesis
    by (intro conjI G r 2 A [THEN conjunct1] A [THEN conjunct2] X B [THEN conjunct1] C1 D E F)
qed

text \<open>
  Claim C7 as stated ("for every report document ... substitutes the empty string for
  each missing field") fails twice. In the empty document \<^verbatim>\<open>business_name\<close> is absent
  and the two texts interpolated for it are \<^verbatim>\<open>Business Overview\<close> and
  \<^verbatim>\<open>Business\<close>. In the document whose only field is a contact e-mail that is an
  object with a property \<^verbatim>\<open>toString\<close>, \<^verbatim>\<open>business_name\<close> is absent too, and
  \<^verbatim>\<open>renderHTML\<close> throws: there is no output.
\<close>

theorem business_name_counterexample:
  "field_read (JObj []) (Header ''business_name'') = Inr JUndefined \<and>
   substituted (JObj []) (Header ''business_name'') = [''Business Overview'', ''Business''] \<and>
   field_read (JObj [(''header'', JObj [(''contact_email'', JObj [(''toString'', JNum ''1'')])])])
     (Header ''business_name'') = Inr JUndefined \<and>
   renderHTML (JObj [(''header'', JObj [(''contact_email'', JObj [(''toString'', JNum ''1'')])])])
     = Inl (JsError ''Cannot convert object to primitive value'')"
  by (simp add: empty_document unprintable_document field_read_def js_or_def)

section \<open>Falsy fields\<close>




section \<open>The health check answers every request alike\<close>

text \<open>
  Claim C10. For every request, whatever its method and body, the health check sets the
  header \<^verbatim>\<open>Content-Type: application/json\<close> and answers 200 with the body
  \<^verbatim>\<open>{"ok":true,"runtime":"node"}\<close>.
\<close>

theorem hello_ignores_request:
  "hello_handler req =
     [SetHeader ''Content-Type'' ''application/json'',
      Responded 200 (Text ''{\"ok\":true,\"runtime\":\"node\"}'')]"
  by (simp add: hello_handler_def io_bind_def call_def respond_def quote_def quote_char_def)

end
